theory Spec2Isabelle
  imports Complex_Main
begin

section \<open>Text, bytes and exceptions\<close>

text \<open>
  Python \<open>str\<close> and \<open>bytes\<close> values are character lists. A \<open>char\<close> is one
  code point below 256 (HTTP header values reach the program decoded as Latin-1, and the
  strings the program builds itself are ASCII). Python \<open>float\<close> values are modelled
  as exact reals: the rounding error of binary64 arithmetic is not part of the model.
\<close>

type_synonym bytes = "char list"

text \<open>\<open>str.isspace\<close> on the code points below 256.\<close>

definition is_space :: "char \<Rightarrow> bool" where
  "is_space c = ((of_char c :: nat) \<in> set [9, 10, 11, 12, 13, 28, 29, 30, 31, 32, 133, 160])"

text \<open>\<open>str.strip()\<close>: leading and trailing whitespace removed.\<close>

definition py_strip :: "string \<Rightarrow> string" where
  "py_strip s = rev (dropWhile is_space (rev (dropWhile is_space s)))"

text \<open>\<open>str.lower()\<close> on the code points below 256: A-Z and the Latin-1 capitals.\<close>

definition lower_char :: "char \<Rightarrow> char" where
  "lower_char c =
     (let n = (of_char c :: nat)
      in if (65 \<le> n \<and> n \<le> 90) \<or> (192 \<le> n \<and> n \<le> 222 \<and> n \<noteq> 215)
         then char_of (n + 32) else c)"

definition py_lower :: "string \<Rightarrow> string" where
  "py_lower s = map lower_char s"

text \<open>\<open>s.split(";")[0]\<close>: the text before the first semicolon.\<close>

definition split_semicolon_first :: "string \<Rightarrow> string" where
  "split_semicolon_first s = takeWhile (\<lambda>c. c \<noteq> CHR '';'') s"

text \<open>
  The exceptions the program meets. The classes of \<open>requests\<close> derive from
  \<open>IOError\<close>, so they are \<open>OSError\<close>s as well; \<open>LibraryError\<close> stands for
  the errors of piexif and Pillow (all subclasses of \<open>Exception\<close>). Each carries its
  message, which \<open>str(e)\<close> returns.
\<close>

datatype exn =
    SSLError string
  | HTTPError string
  | RequestException string
  | OSError string
  | ValueError string
  | CalledProcessError string
  | UnboundLocalError string
  | EOFError string
  | LibraryError string

fun exn_str :: "exn \<Rightarrow> string" where
  "exn_str (SSLError m) = m"
| "exn_str (HTTPError m) = m"
| "exn_str (RequestException m) = m"
| "exn_str (OSError m) = m"
| "exn_str (ValueError m) = m"
| "exn_str (CalledProcessError m) = m"
| "exn_str (UnboundLocalError m) = m"
| "exn_str (EOFError m) = m"
| "exn_str (LibraryError m) = m"

fun is_SSLError :: "exn \<Rightarrow> bool" where
  "is_SSLError (SSLError m) = True"
| "is_SSLError e = False"

fun is_HTTPError :: "exn \<Rightarrow> bool" where
  "is_HTTPError (HTTPError m) = True"
| "is_HTTPError e = False"

fun is_OSError :: "exn \<Rightarrow> bool" where
  "is_OSError (SSLError m) = True"
| "is_OSError (HTTPError m) = True"
| "is_OSError (RequestException m) = True"
| "is_OSError (OSError m) = True"
| "is_OSError e = False"

section \<open>Paths\<close>

text \<open>
  A \<open>pathlib.Path\<close> is its parent directory and its final component. Directories
  themselves are not modelled: \<open>mkdir\<close> is an event of the log only.
\<close>

datatype path = Path (parent: string) (name: string)

text \<open>\<open>str.rfind\<close> of one character: the index of its last occurrence.\<close>

definition rfind :: "char \<Rightarrow> string \<Rightarrow> nat option" where
  "rfind c s =
     (let r = takeWhile (\<lambda>x. x \<noteq> c) (rev s)
      in if length r = length s then None else Some (length s - length r - 1))"

text \<open>\<open>PurePath.suffix\<close>: from the last dot of the name, unless that dot is the first
  or the last character.\<close>

definition name_suffix :: "string \<Rightarrow> string" where
  "name_suffix n =
     (case rfind (CHR ''.'') n of
        None \<Rightarrow> []
      | Some i \<Rightarrow> if 0 < i \<and> i < length n - 1 then drop i n else [])"

definition suffix :: "path \<Rightarrow> string" where
  "suffix p = name_suffix (name p)"

text \<open>\<open>PurePath.with_suffix\<close> (POSIX flavour), with its three \<open>ValueError\<close>s.\<close>

definition with_suffix :: "path \<Rightarrow> string \<Rightarrow> exn + path" where
  "with_suffix p suf =
     (if CHR ''/'' \<in> set suf then Inl (ValueError ''Invalid suffix'')
      else if (suf \<noteq> [] \<and> hd suf \<noteq> CHR ''.'') \<or> suf = ''.'' then Inl (ValueError ''Invalid suffix'')
      else if name p = [] then Inl (ValueError ''empty name'')
      else let old_suffix = suffix p
           in if old_suffix = [] then Inr (Path (parent p) (name p @ suf))
              else Inr (Path (parent p) (take (length (name p) - length old_suffix) (name p) @ suf)))"

section \<open>The world: files, network, processes\<close>

text \<open>
  What a file holds: raw bytes; the text \<open>json.dumps(d, indent=2)\<close> of a dictionary
  \<open>d\<close> (kept as the dictionary, in key order) followed by the bytes appended to it
  since; or data this process may not read.
\<close>

datatype jvalue = JStr string | JNum real | JNull

datatype content = Bytes bytes | JsonText "(string \<times> jvalue) list" bytes | Unreadable

text \<open>Every call that leaves the process is recorded, in order.\<close>

datatype event =
    Mkdir string
  | Get "string option"
  | Sleep nat
  | OpenWrite path
  | WriteChunk path bytes
  | OpenRead path
  | Replace path path
  | Unlink path
  | Ffmpeg path path
  | PiexifInsert path
  | PilOpen path
  | PilSave path
  | WriteText path
  | Append path
  | Input

record world =
  files :: "path \<rightharpoonup> content"
  log :: "event list"
  nreq :: nat

definition emit :: "event \<Rightarrow> world \<Rightarrow> world" where
  "emit e w = w\<lparr>log := log w @ [e]\<rparr>"

text \<open>\<open>open(p, "rb")\<close> followed by \<open>f.read(4)\<close>. The text of an empty dictionary
  is \<open>{}\<close>; that of any other starts with a brace, a newline and two spaces.\<close>

definition open_read4 :: "path \<Rightarrow> world \<Rightarrow> (exn + bytes) \<times> world" where
  "open_read4 p w =
     (case files w p of
        None \<Rightarrow> (Inl (OSError ''FileNotFoundError''), emit (OpenRead p) w)
      | Some Unreadable \<Rightarrow> (Inl (OSError ''PermissionError''), emit (OpenRead p) w)
      | Some (Bytes b) \<Rightarrow> (Inr (take 4 b), emit (OpenRead p) w)
      | Some (JsonText d t) \<Rightarrow>
          (Inr (if d = [] then take 4 (''{}'' @ t) else [CHR ''{'', CHR 0x0A, CHR '' '', CHR '' '']),
           emit (OpenRead p) w))"

text \<open>\<open>open(p, "wb")\<close>: the file is created or truncated.\<close>

definition open_write :: "path \<Rightarrow> world \<Rightarrow> world" where
  "open_write p w = emit (OpenWrite p) (w\<lparr>files := (files w)(p \<mapsto> Bytes [])\<rparr>)"

definition bytes_of :: "content option \<Rightarrow> bytes" where
  "bytes_of c = (case c of Some (Bytes b) \<Rightarrow> b | _ \<Rightarrow> [])"

text \<open>\<open>f.write(chunk)\<close> on the file that \<open>open_write\<close> opened at \<open>p\<close>, which holds
  bytes since then.\<close>

definition write_chunk :: "path \<Rightarrow> bytes \<Rightarrow> world \<Rightarrow> world" where
  "write_chunk p c w =
     emit (WriteChunk p c) (w\<lparr>files := (files w)(p \<mapsto> Bytes (bytes_of (files w p) @ c))\<rparr>)"

text \<open>\<open>Path.replace\<close> (\<open>os.replace\<close>): the source must exist; an existing target is
  overwritten; renaming a file onto itself changes nothing.\<close>

definition os_replace :: "path \<Rightarrow> path \<Rightarrow> world \<Rightarrow> (exn + unit) \<times> world" where
  "os_replace src dst w =
     (case files w src of
        None \<Rightarrow> (Inl (OSError ''FileNotFoundError''), emit (Replace src dst) w)
      | Some c \<Rightarrow>
          (Inr (), emit (Replace src dst) (w\<lparr>files := ((files w)(src := None))(dst \<mapsto> c)\<rparr>)))"

text \<open>\<open>Path.unlink(missing_ok=True)\<close>.\<close>

definition unlink_missing_ok :: "path \<Rightarrow> world \<Rightarrow> world" where
  "unlink_missing_ok p w = emit (Unlink p) (w\<lparr>files := (files w)(p := None)\<rparr>)"

text \<open>\<open>Path.write_text(json.dumps(d, indent=2))\<close>.\<close>

definition write_text_json :: "path \<Rightarrow> (string \<times> jvalue) list \<Rightarrow> world \<Rightarrow> world" where
  "write_text_json p d w = emit (WriteText p) (w\<lparr>files := (files w)(p \<mapsto> JsonText d [])\<rparr>)"

section \<open>EXIF values\<close>

text \<open>An EXIF rational is a pair (numerator, denominator).\<close>

type_synonym rational = "int \<times> int"

text \<open>\<open>int(x)\<close> truncates towards zero; \<open>round(x)\<close> rounds to the nearest integer,
  a tie to the even one.\<close>

definition py_int :: "real \<Rightarrow> int" where
  "py_int x = (if 0 \<le> x then \<lfloor>x\<rfloor> else - \<lfloor>- x\<rfloor>)"

definition py_round :: "real \<Rightarrow> int" where
  "py_round x =
     (let f = \<lfloor>x\<rfloor>; r = x - of_int f
      in if r < 1 / 2 then f else if 1 / 2 < r then f + 1 else if even f then f else f + 1)"

definition deg_to_dms_rational :: "real \<Rightarrow> rational \<times> rational \<times> rational" where
  "deg_to_dms_rational deg_float =
     (let deg_abs = \<bar>deg_float\<bar>;
          d = py_int deg_abs;
          m_float = (deg_abs - of_int d) * 60;
          m = py_int m_float;
          s = (m_float - of_int m) * 60
      in ((d, 1), (m, 1), (py_round (s * 100), 100)))"

datatype exif_tag =
    DateTime | ImageDescription | DateTimeOriginal | DateTimeDigitized
  | GPSLatitudeRef | GPSLongitudeRef | GPSLatitude | GPSLongitude

datatype exif_value = Ascii string | Dms "rational \<times> rational \<times> rational"

record exif_dict =
  ifd_0th :: "(exif_tag \<times> exif_value) list"
  ifd_Exif :: "(exif_tag \<times> exif_value) list"
  ifd_GPS :: "(exif_tag \<times> exif_value) list"

text \<open>The GPS entries \<open>tag_jpeg_tiff_exif\<close> stores, in the order it stores them.\<close>

definition gps_ifd :: "real option \<Rightarrow> real option \<Rightarrow> (exif_tag \<times> exif_value) list" where
  "gps_ifd lat lon =
     (case (lat, lon) of
        (Some la, Some lo) \<Rightarrow>
          [(GPSLatitudeRef, Ascii (if 0 \<le> la then ''N'' else ''S'')),
           (GPSLongitudeRef, Ascii (if 0 \<le> lo then ''E'' else ''W'')),
           (GPSLatitude, Dms (deg_to_dms_rational la)),
           (GPSLongitude, Dms (deg_to_dms_rational lo))]
      | _ \<Rightarrow> [])"

definition build_exif :: "string \<Rightarrow> real option \<Rightarrow> real option \<Rightarrow> string \<Rightarrow> exif_dict" where
  "build_exif date_str_for_exif lat lon location_text =
     \<lparr>ifd_0th = [(DateTime, Ascii date_str_for_exif),
                 (ImageDescription, Ascii (''Location: '' @ location_text))],
      ifd_Exif = [(DateTimeOriginal, Ascii date_str_for_exif),
                  (DateTimeDigitized, Ascii date_str_for_exif)],
      ifd_GPS = gps_ifd lat lon\<rparr>"

text \<open>How a reader turns a rational and a degrees/minutes/seconds triple back into
  decimal degrees.\<close>

definition rational_value :: "rational \<Rightarrow> real" where
  "rational_value r = of_int (fst r) / of_int (snd r)"

definition dms_to_deg :: "rational \<times> rational \<times> rational \<Rightarrow> real" where
  "dms_to_deg t =
     (case t of (d, m, s) \<Rightarrow> rational_value d + rational_value m / 60 + rational_value s / 3600)"

section \<open>The environment\<close>

text \<open>
  The library functions the program calls are parameters of the model, and so are the
  answers of the network, of the external process, of the imaging libraries and of the
  console.
\<close>

datatype http_result =
    GetRaises exn
  | Response nat "string option" "bytes list" "exn option"

text \<open>
  \<open>Response status content_type chunks ending\<close>: the status code, the Content-Type
  header, the chunks \<open>iter_content\<close> yields, and the exception that ends the iteration
  early, if any.

  \<^item> \<open>requests_get n url\<close> answers the \<open>n\<close>-th request of the run;
  \<^item> \<open>ffmpeg_run cmd c\<close>, for the command line and the content of the input file, is
    the exception \<open>subprocess.run(cmd, check=True)\<close> raises, if any, and the bytes the
    process left at its output path, if any;
  \<^item> \<open>piexif_dump_insert d c\<close> is \<open>piexif.dump\<close> followed by \<open>piexif.insert\<close> on a
    file holding \<open>c\<close>: the new bytes of the file, or the exception raised (the file is
    then as it was);
  \<^item> \<open>pil_open c\<close> is the exception of \<open>Image.open\<close>, if any; \<open>pil_save c meta\<close> is
    the exception of \<open>im.save\<close>, if any, and the bytes left at the target, if any;
  \<^item> \<open>stdin_line i\<close> is the line \<open>input()\<close> reads after item \<open>i\<close>, \<open>None\<close> at
    end of input;
  \<^item> \<open>format_4f x\<close> is the text of \<open>f"{x:+.4f}"\<close>.
\<close>

record env =
  mimetypes_guess_extension :: "string \<Rightarrow> string option"
  url_path_suffix :: "string \<Rightarrow> string"
  html_unescape :: "string \<Rightarrow> string"
  format_4f :: "real \<Rightarrow> string"
  requests_get :: "nat \<Rightarrow> string \<Rightarrow> http_result"
  which_ffmpeg :: bool
  ffmpeg_run :: "string list \<Rightarrow> content option \<Rightarrow> exn option \<times> bytes option"
  piexif_dump_insert :: "exif_dict \<Rightarrow> content option \<Rightarrow> exn + bytes"
  pil_open :: "content option \<Rightarrow> exn option"
  pil_save :: "content option \<Rightarrow> (string \<times> string) list \<Rightarrow> exn option \<times> bytes option"
  stdin_line :: "nat \<Rightarrow> string option"

section \<open>guess\_ext\<close>

text \<open>\<open>content_type.split(";")[0].strip().lower()\<close>.\<close>

definition ct_media_type :: "string \<Rightarrow> string" where
  "ct_media_type content_type = py_lower (py_strip (split_semicolon_first content_type))"

definition guess_ext :: "env \<Rightarrow> string \<Rightarrow> string option \<Rightarrow> string" where
  "guess_ext E url content_type =
     (let from_header =
        (case content_type of
           None \<Rightarrow> None
         | Some c \<Rightarrow>
             if c = [] then None
             else let ct = ct_media_type c;
                      ext = (case mimetypes_guess_extension E ct of None \<Rightarrow> [] | Some e \<Rightarrow> e)
                  in if ct = ''video/mp4'' then Some ''.mp4''
                     else if ct = ''image/jpeg'' then Some ''.jpg''
                     else if ext \<noteq> [] then Some ext
                     else None)
      in case from_header of
           Some e \<Rightarrow> e
         | None \<Rightarrow> (let suffix = url_path_suffix E url in if suffix \<noteq> [] then suffix else []))"

section \<open>is\_zip and save\_zip\<close>

definition zip_mimes :: "string list" where
  "zip_mimes = [''application/zip'', ''application/x-zip-compressed'']"

definition zip_signature :: bytes where
  "zip_signature = [CHR ''P'', CHR ''K'', CHR 0x03, CHR 0x04]"

definition is_zip :: "path \<Rightarrow> string option \<Rightarrow> world \<Rightarrow> (exn + bool) \<times> world" where
  "is_zip file_path content_type w =
     (let is_zip0 =
        (case content_type of
           None \<Rightarrow> False
         | Some c \<Rightarrow> if c = [] then False else ct_media_type c \<in> set zip_mimes)
      in if \<not> is_zip0 then
           (case open_read4 file_path w of
              (Inr sig, w') \<Rightarrow> (Inr (sig = zip_signature), w')
            | (Inl e, w') \<Rightarrow> if is_OSError e then (Inr False, w') else (Inl e, w'))
         else (Inr True, w))"

definition save_zip :: "path \<Rightarrow> string \<Rightarrow> world \<Rightarrow> (exn + unit) \<times> world" where
  "save_zip file_path suf w =
     (case (if suf = ''.zip'' then Inr file_path else with_suffix file_path ''.zip'') of
        Inl e \<Rightarrow> (Inl e, w)
      | Inr zip_path \<Rightarrow>
          if zip_path \<noteq> file_path then os_replace file_path zip_path w else (Inr (), w))"


section \<open>download\_file\<close>

definition max_retries :: nat where
  "max_retries = 3"

text \<open>\<open>r.raise_for_status()\<close> raises for the status codes 400 to 599.\<close>

definition raise_for_status :: "nat \<Rightarrow> exn option" where
  "raise_for_status status =
     (if 400 \<le> status \<and> status < 600 then Some (HTTPError ''HTTPError'') else None)"

text \<open>The loop over \<open>r.iter_content\<close>: every chunk that is not empty is written.\<close>

fun write_chunks :: "path \<Rightarrow> bytes list \<Rightarrow> world \<Rightarrow> world" where
  "write_chunks p [] w = w"
| "write_chunks p (chunk # chunks) w =
     write_chunks p chunks (if chunk \<noteq> [] then write_chunk p chunk w else w)"

text \<open>
  The body of the \<open>try\<close>: one request. \<open>requests.get(None)\<close> raises
  \<open>MissingSchema\<close>, a \<open>RequestException\<close>. The result is the Content-Type header.
\<close>

definition attempt_once ::
  "env \<Rightarrow> string option \<Rightarrow> path \<Rightarrow> world \<Rightarrow> (exn + string option) \<times> world" where
  "attempt_once E url tmp_path w =
     (let w1 = emit (Get url) (w\<lparr>nreq := nreq w + 1\<rparr>)
      in case url of
           None \<Rightarrow> (Inl (RequestException ''MissingSchema''), w1)
         | Some u \<Rightarrow>
             (case requests_get E (nreq w) u of
                GetRaises e \<Rightarrow> (Inl e, w1)
              | Response status content_type chunks ending \<Rightarrow>
                  (case raise_for_status status of
                     Some e \<Rightarrow> (Inl e, w1)
                   | None \<Rightarrow>
                       (let w2 = write_chunks tmp_path chunks (open_write tmp_path w1)
                        in case ending of
                             Some e \<Rightarrow> (Inl e, w2)
                           | None \<Rightarrow> (Inr content_type, w2)))))"

text \<open>
  The \<open>for attempt in range(1, max_retries + 1)\<close> loop, over the attempt numbers still
  to come. Leaving the loop without \<open>break\<close> would reach \<open>guess_ext\<close> with
  \<open>content_type\<close> unbound.
\<close>

fun attempts ::
  "env \<Rightarrow> string option \<Rightarrow> path \<Rightarrow> nat list \<Rightarrow> world \<Rightarrow> (exn + string option) \<times> world" where
  "attempts E url tmp_path [] w = (Inl (UnboundLocalError ''content_type''), w)"
| "attempts E url tmp_path (attempt # rest) w =
     (case attempt_once E url tmp_path w of
        (Inr content_type, w') \<Rightarrow> (Inr content_type, w')
      | (Inl e, w') \<Rightarrow>
          if is_SSLError e then
            (if attempt = max_retries then (Inl e, w')
             else attempts E url tmp_path rest (emit (Sleep 60) w'))
          else (Inl e, w'))"

definition download_file ::
  "env \<Rightarrow> string option \<Rightarrow> path \<Rightarrow> string \<Rightarrow> world \<Rightarrow> (exn + path \<times> string option) \<times> world" where
  "download_file E url out_stem kind_norm w =
     (let w0 = emit (Mkdir (parent out_stem)) w
      in case with_suffix out_stem ''.download'' of
           Inl e \<Rightarrow> (Inl e, w0)
         | Inr tmp_path \<Rightarrow>
             (case attempts E url tmp_path [1 ..< max_retries + 1] w0 of
                (Inl e, w1) \<Rightarrow> (Inl e, w1)
              | (Inr content_type, w1) \<Rightarrow>
                  (let ext = guess_ext E (case url of Some u \<Rightarrow> u | None \<Rightarrow> []) content_type
                   in case (if ext = [] \<and> kind_norm = ''image''
                            then with_suffix out_stem ''.jpg''
                            else with_suffix out_stem ext) of
                        Inl e \<Rightarrow> (Inl e, w1)
                      | Inr final_path \<Rightarrow>
                          (case os_replace tmp_path final_path w1 of
                             (Inl e, w2) \<Rightarrow> (Inl e, w2)
                           | (Inr u, w2) \<Rightarrow> (Inr (final_path, content_type), w2)))))"

section \<open>add\_line\_to\_file\<close>

text \<open>\<open>open(p, "a")\<close> and \<open>f.write(text + "\n")\<close>: the file is created when absent,
  and what it holds stays in front of the new line.\<close>

definition add_line_to_file :: "path \<Rightarrow> string \<Rightarrow> world \<Rightarrow> world" where
  "add_line_to_file file_path txt w =
     emit (Append file_path)
       (w\<lparr>files := (files w)(file_path \<mapsto>
            (case files w file_path of
               None \<Rightarrow> Bytes (txt @ [CHR 0x0A])
             | Some (Bytes b) \<Rightarrow> Bytes (b @ txt @ [CHR 0x0A])
             | Some (JsonText d t) \<Rightarrow> JsonText d (t @ txt @ [CHR 0x0A])
             | Some Unreadable \<Rightarrow> Unreadable))\<rparr>)"

section \<open>Parsing a catalog row\<close>

text \<open>
  The HTML parser is outside the model. A row is what the program reads from it: the
  texts of its \<open>td\<close> cells (each already stripped by \<open>get_text(strip=True)\<close>) and the
  \<open>onclick\<close> attribute of the first anchor that \<open>a[onclick*="downloadMemories"]\<close>
  selects, if there is one.
\<close>

record row =
  tds :: "string list"
  anchor_onclick :: "string option"

definition is_digit :: "char \<Rightarrow> bool" where
  "is_digit c = ((of_char c :: nat) \<in> set [48, 49, 50, 51, 52, 53, 54, 55, 56, 57])"

definition digit_val :: "char \<Rightarrow> nat" where
  "digit_val c = of_char c - 48"

text \<open>\<open>re.search\<close>: the match at the leftmost position where the pattern matches.\<close>

fun re_search :: "(string \<Rightarrow> 'a option) \<Rightarrow> string \<Rightarrow> 'a option" where
  "re_search m [] = m []"
| "re_search m (c # s) = (case m (c # s) of Some g \<Rightarrow> Some g | None \<Rightarrow> re_search m s)"

text \<open>A literal at the head of the text; the rest of the text is returned.\<close>

definition lit :: "string \<Rightarrow> string \<Rightarrow> string option" where
  "lit l s = (if take (length l) s = l then Some (drop (length l) s) else None)"

definition lit_ignorecase :: "string \<Rightarrow> string \<Rightarrow> string option" where
  "lit_ignorecase l s =
     (if length l \<le> length s \<and> py_lower (take (length l) s) = py_lower l
      then Some (drop (length l) s) else None)"

text \<open>
  \<open>ONCLICK_RE = downloadMemories\(\s*'([^']+)'\<close>, ignoring case, matched at the head
  of the text: group 1.
\<close>

definition onclick_match :: "string \<Rightarrow> string option" where
  "onclick_match s =
     (case lit_ignorecase ''downloadMemories('' s of
        None \<Rightarrow> None
      | Some r \<Rightarrow>
          (case lit [CHR 0x27] (dropWhile is_space r) of
             None \<Rightarrow> None
           | Some r' \<Rightarrow>
               (let g = takeWhile (\<lambda>c. c \<noteq> CHR 0x27) r';
                    rest = dropWhile (\<lambda>c. c \<noteq> CHR 0x27) r'
                in if g \<noteq> [] \<and> rest \<noteq> [] then Some g else None)))"

definition extract_download_url :: "env \<Rightarrow> row \<Rightarrow> string option" where
  "extract_download_url E r =
     (case anchor_onclick r of
        None \<Rightarrow> None
      | Some oc \<Rightarrow>
          if oc = [] then None
          else (case re_search onclick_match oc of
                  None \<Rightarrow> None
                | Some g \<Rightarrow> Some (html_unescape E g)))"

text \<open>
  A number \<open>[+-]?\d+(?:\.\d+)?\<close> at the head of the text, as long as it can be, with
  the value \<open>float\<close> gives it.
\<close>

definition digits_value :: "string \<Rightarrow> nat" where
  "digits_value ds = foldl (\<lambda>n c. 10 * n + digit_val c) 0 ds"

definition number_match :: "string \<Rightarrow> (real \<times> string) option" where
  "number_match s =
     (let (sign, s1) = (case s of
                          c # r \<Rightarrow> if c = CHR ''-'' then (- 1, r)
                                   else if c = CHR ''+'' then (1, r) else (1, s)
                        | [] \<Rightarrow> (1, s));
          ip = takeWhile is_digit s1;
          s2 = dropWhile is_digit s1
      in if ip = [] then None
         else (case s2 of
                 c # r \<Rightarrow>
                   (let fp = takeWhile is_digit r
                    in if c = CHR ''.'' \<and> fp \<noteq> []
                       then Some (sign * (of_nat (digits_value ip)
                                   + of_nat (digits_value fp) / 10 ^ length fp),
                                  dropWhile is_digit r)
                       else Some (sign * of_nat (digits_value ip), s2))
               | [] \<Rightarrow> Some (sign * of_nat (digits_value ip), s2)))"

text \<open>
  The pattern of \<open>parse_lat_lon\<close>,
  \<open>Latitude,\s*Longitude:\s*(number),\s*(number)\<close>, matched at the head of the text.
\<close>

definition lat_lon_match :: "string \<Rightarrow> (real \<times> real) option" where
  "lat_lon_match s =
     (case lit ''Latitude,'' s of
        None \<Rightarrow> None
      | Some r1 \<Rightarrow>
          (case lit ''Longitude:'' (dropWhile is_space r1) of
             None \<Rightarrow> None
           | Some r2 \<Rightarrow>
               (case number_match (dropWhile is_space r2) of
                  None \<Rightarrow> None
                | Some (la, r3) \<Rightarrow>
                    (case lit '','' r3 of
                       None \<Rightarrow> None
                     | Some r4 \<Rightarrow>
                         (case number_match (dropWhile is_space r4) of
                            None \<Rightarrow> None
                          | Some (lo, r5) \<Rightarrow> Some (la, lo))))))"

definition parse_lat_lon :: "string \<Rightarrow> real option \<times> real option" where
  "parse_lat_lon location_str =
     (case re_search lat_lon_match location_str of
        None \<Rightarrow> (None, None)
      | Some (la, lo) \<Rightarrow> (Some la, Some lo))"

subsection \<open>The timestamp\<close>

record datetime =
  year :: nat
  month :: nat
  day :: nat
  hour :: nat
  minute :: nat
  second :: nat

text \<open>
  \<open>datetime.strptime(s, "%Y-%m-%d %H:%M:%S UTC")\<close>. The library turns the format into
  the regular expression
  \<open>(\d\d\d\d)-(1[0-2]|0[1-9]|[1-9])-(3[01]|[12]\d|0[1-9]|[1-9]| [1-9])\s+(2[0-3]|[0-1]\d|\d):([0-5]\d|\d):(6[0-1]|[0-5]\d|\d)\s+UTC\<close>,
  matched at the head of the text, ignoring case. Each field lists its ways to match in
  the order the expression tries them; the first complete match is the one taken.
\<close>

definition two_digits :: "string \<Rightarrow> (nat \<times> nat \<times> string) option" where
  "two_digits s =
     (case s of
        a # b # r \<Rightarrow> if is_digit a \<and> is_digit b then Some (digit_val a, digit_val b, r) else None
      | _ \<Rightarrow> None)"

definition one_digit :: "string \<Rightarrow> (nat \<times> string) option" where
  "one_digit s =
     (case s of a # r \<Rightarrow> if is_digit a then Some (digit_val a, r) else None | _ \<Rightarrow> None)"

definition year_alts :: "string \<Rightarrow> (nat \<times> string) list" where
  "year_alts s =
     (case two_digits s of
        None \<Rightarrow> []
      | Some (a, b, r) \<Rightarrow>
          (case two_digits r of
             None \<Rightarrow> []
           | Some (c, d, r') \<Rightarrow> [(1000 * a + 100 * b + 10 * c + d, r')]))"

definition month_alts :: "string \<Rightarrow> (nat \<times> string) list" where
  "month_alts s =
     (case two_digits s of
        None \<Rightarrow> []
      | Some (a, b, r) \<Rightarrow>
          (if a = 1 \<and> b \<le> 2 then [(10 + b, r)] else []) @
          (if a = 0 \<and> 1 \<le> b then [(b, r)] else [])) @
     (case one_digit s of
        None \<Rightarrow> []
      | Some (a, r) \<Rightarrow> if 1 \<le> a then [(a, r)] else [])"

definition day_alts :: "string \<Rightarrow> (nat \<times> string) list" where
  "day_alts s =
     (case two_digits s of
        None \<Rightarrow> []
      | Some (a, b, r) \<Rightarrow>
          (if a = 3 \<and> b \<le> 1 then [(30 + b, r)] else []) @
          (if a = 1 \<or> a = 2 then [(10 * a + b, r)] else []) @
          (if a = 0 \<and> 1 \<le> b then [(b, r)] else [])) @
     (case one_digit s of
        None \<Rightarrow> []
      | Some (a, r) \<Rightarrow> if 1 \<le> a then [(a, r)] else []) @
     (case s of
        c # r \<Rightarrow>
          (if c = CHR '' '' then
             (case one_digit r of
                None \<Rightarrow> []
              | Some (a, r') \<Rightarrow> if 1 \<le> a then [(a, r')] else [])
           else [])
      | [] \<Rightarrow> [])"

definition hour_alts :: "string \<Rightarrow> (nat \<times> string) list" where
  "hour_alts s =
     (case two_digits s of
        None \<Rightarrow> []
      | Some (a, b, r) \<Rightarrow>
          (if a = 2 \<and> b \<le> 3 then [(20 + b, r)] else []) @
          (if a \<le> 1 then [(10 * a + b, r)] else [])) @
     (case one_digit s of None \<Rightarrow> [] | Some (a, r) \<Rightarrow> [(a, r)])"

definition minute_alts :: "string \<Rightarrow> (nat \<times> string) list" where
  "minute_alts s =
     (case two_digits s of
        None \<Rightarrow> []
      | Some (a, b, r) \<Rightarrow> if a \<le> 5 then [(10 * a + b, r)] else []) @
     (case one_digit s of None \<Rightarrow> [] | Some (a, r) \<Rightarrow> [(a, r)])"

definition second_alts :: "string \<Rightarrow> (nat \<times> string) list" where
  "second_alts s =
     (case two_digits s of
        None \<Rightarrow> []
      | Some (a, b, r) \<Rightarrow>
          (if a = 6 \<and> b \<le> 1 then [(60 + b, r)] else []) @
          (if a \<le> 5 then [(10 * a + b, r)] else [])) @
     (case one_digit s of None \<Rightarrow> [] | Some (a, r) \<Rightarrow> [(a, r)])"

text \<open>A literal, and \<open>\s+\<close> (all the whitespace there is: what follows it in the
  expression never starts with whitespace), as ways to match.\<close>

definition lit_alts :: "string \<Rightarrow> string \<Rightarrow> string list" where
  "lit_alts l s = (case lit l s of None \<Rightarrow> [] | Some r \<Rightarrow> [r])"

definition spaces1_alts :: "string \<Rightarrow> string list" where
  "spaces1_alts s = (case s of c # r \<Rightarrow> if is_space c then [dropWhile is_space s] else [] | [] \<Rightarrow> [])"

definition utc_alts :: "string \<Rightarrow> string list" where
  "utc_alts s = (case lit_ignorecase ''UTC'' s of None \<Rightarrow> [] | Some r \<Rightarrow> [r])"

definition strptime_matches :: "string \<Rightarrow> (datetime \<times> string) list" where
  "strptime_matches s =
     [(\<lparr>year = Y, month = m, day = d, hour = H, minute = M, second = S\<rparr>, r13).
        (Y, r1) \<leftarrow> year_alts s, r2 \<leftarrow> lit_alts ''-'' r1,
        (m, r3) \<leftarrow> month_alts r2, r4 \<leftarrow> lit_alts ''-'' r3,
        (d, r5) \<leftarrow> day_alts r4, r6 \<leftarrow> spaces1_alts r5,
        (H, r7) \<leftarrow> hour_alts r6, r8 \<leftarrow> lit_alts '':'' r7,
        (M, r9) \<leftarrow> minute_alts r8, r10 \<leftarrow> lit_alts '':'' r9,
        (S, r11) \<leftarrow> second_alts r10, r12 \<leftarrow> spaces1_alts r11,
        r13 \<leftarrow> utc_alts r12]"

definition is_leap :: "nat \<Rightarrow> bool" where
  "is_leap y = (y mod 4 = 0 \<and> (y mod 100 \<noteq> 0 \<or> y mod 400 = 0))"

definition days_in_month :: "nat \<Rightarrow> nat \<Rightarrow> nat" where
  "days_in_month y m =
     (if m = 2 then (if is_leap y then 29 else 28)
      else if m = 4 \<or> m = 6 \<or> m = 9 \<or> m = 11 then 30 else 31)"

text \<open>The match must use the whole text, and the fields must make a date and a time of
  day: a year from 1, a day the month has, a second below 60.\<close>

definition strptime_utc :: "string \<Rightarrow> exn + datetime" where
  "strptime_utc s =
     (case strptime_matches s of
        [] \<Rightarrow> Inl (ValueError ''time data does not match format'')
      | (dt, r) # other \<Rightarrow>
          if r \<noteq> [] then Inl (ValueError ''unconverted data remains'')
          else if year dt < 1 \<or> days_in_month (year dt) (month dt) < day dt \<or> 59 < second dt
          then Inl (ValueError ''out of range'')
          else Inr dt)"

definition digit_char :: "nat \<Rightarrow> char" where
  "digit_char n = char_of (48 + n mod 10)"

text \<open>\<open>str(n)\<close> for a number that is not negative, and the zero-padded fields of
  \<open>isoformat\<close> and \<open>strftime\<close>.\<close>

fun str_nat :: "nat \<Rightarrow> string" where
  "str_nat n = (if n < 10 then [digit_char n] else str_nat (n div 10) @ [digit_char n])"

definition pad2 :: "nat \<Rightarrow> string" where
  "pad2 n = [digit_char (n div 10), digit_char n]"

definition pad4 :: "nat \<Rightarrow> string" where
  "pad4 n = [digit_char (n div 1000), digit_char (n div 100), digit_char (n div 10), digit_char n]"

text \<open>\<open>dt.isoformat().replace("+00:00", "Z")\<close> for a time in UTC without
  microseconds.\<close>

definition isoformat_z :: "datetime \<Rightarrow> string" where
  "isoformat_z dt =
     pad4 (year dt) @ ''-'' @ pad2 (month dt) @ ''-'' @ pad2 (day dt) @ ''T'' @
     pad2 (hour dt) @ '':'' @ pad2 (minute dt) @ '':'' @ pad2 (second dt) @ ''Z''"

definition parse_iso8601_utc :: "string \<Rightarrow> exn + string" where
  "parse_iso8601_utc date_str =
     (case strptime_utc (py_strip date_str) of Inl e \<Rightarrow> Inl e | Inr dt \<Rightarrow> Inr (isoformat_z dt))"

text \<open>\<open>strftime("%Y:%m:%d %H:%M:%S")\<close>, the year written with four digits.\<close>

definition strftime_exif :: "datetime \<Rightarrow> string" where
  "strftime_exif dt =
     pad4 (year dt) @ '':'' @ pad2 (month dt) @ '':'' @ pad2 (day dt) @ '' '' @
     pad2 (hour dt) @ '':'' @ pad2 (minute dt) @ '':'' @ pad2 (second dt)"

subsection \<open>safe\_filename\<close>

text \<open>The characters \<open>[\w\-\.]\<close> below code point 256.\<close>

definition is_word :: "char \<Rightarrow> bool" where
  "is_word c =
     (let n = (of_char c :: nat)
      in (48 \<le> n \<and> n \<le> 57) \<or> (65 \<le> n \<and> n \<le> 90) \<or> (97 \<le> n \<and> n \<le> 122) \<or> n = 95
         \<or> n = 170 \<or> n = 178 \<or> n = 179 \<or> n = 181 \<or> n = 185 \<or> n = 186
         \<or> (188 \<le> n \<and> n \<le> 190) \<or> (192 \<le> n \<and> n \<le> 214) \<or> (216 \<le> n \<and> n \<le> 246)
         \<or> 248 \<le> n)"

definition is_safe :: "char \<Rightarrow> bool" where
  "is_safe c = (is_word c \<or> c = CHR ''-'' \<or> c = CHR ''.'')"

text \<open>\<open>re.sub(r"[^\w\-\.]+", "_", s)\<close>: every run of other characters becomes one
  underscore.\<close>

function sub_unsafe :: "string \<Rightarrow> string" where
  "sub_unsafe [] = []"
| "sub_unsafe (c # s) =
     (if is_safe c then c # sub_unsafe s
      else CHR ''_'' # sub_unsafe (dropWhile (\<lambda>x. \<not> is_safe x) s))"
  by pat_completeness auto
termination
  by (relation "measure length") (auto simp: less_Suc_eq_le length_dropWhile_le)

definition strip_char :: "char \<Rightarrow> string \<Rightarrow> string" where
  "strip_char c s = rev (dropWhile (\<lambda>x. x = c) (rev (dropWhile (\<lambda>x. x = c) s)))"

definition safe_filename :: "string \<Rightarrow> string" where
  "safe_filename s =
     (let s1 = sub_unsafe (py_strip s);
          s2 = strip_char (CHR ''_'') s1
      in take 180 (if s2 = [] then ''file'' else s2))"

section \<open>The taggers\<close>

definition str_path :: "path \<Rightarrow> string" where
  "str_path p = parent p @ ''/'' @ name p"

definition to_iso6709 :: "env \<Rightarrow> real option \<Rightarrow> real option \<Rightarrow> string" where
  "to_iso6709 E lat lon =
     (case (lat, lon) of
        (Some la, Some lo) \<Rightarrow> format_4f E la @ format_4f E lo @ ''/''
      | _ \<Rightarrow> [])"

definition ffmpeg_cmd ::
  "env \<Rightarrow> path \<Rightarrow> path \<Rightarrow> string \<Rightarrow> string \<Rightarrow> real option \<Rightarrow> real option \<Rightarrow> string list" where
  "ffmpeg_cmd E in_path out_path date_iso location_text lat lon =
     (let iso6709 = to_iso6709 E lat lon
      in [''ffmpeg'', ''-y'', ''-i'', str_path in_path, ''-map'', ''0'', ''-c'', ''copy'',
          ''-metadata'', ''creation_time='' @ date_iso,
          ''-metadata'', ''comment=Location: '' @ location_text @ '' | Date: '' @ date_iso]
         @ (if iso6709 \<noteq> []
            then [''-metadata'', ''com.apple.quicktime.location.ISO6709='' @ iso6709,
                  ''-metadata'', ''location='' @ iso6709]
            else [])
         @ [str_path out_path])"

text \<open>\<open>subprocess.run(cmd, check=True)\<close>: what the process wrote is at \<open>out_path\<close>
  whether or not the call raises.\<close>

definition write_video_metadata_ffmpeg ::
  "env \<Rightarrow> path \<Rightarrow> path \<Rightarrow> string \<Rightarrow> string \<Rightarrow> real option \<Rightarrow> real option \<Rightarrow> world
     \<Rightarrow> (exn + unit) \<times> world" where
  "write_video_metadata_ffmpeg E in_path out_path date_iso location_text lat lon w =
     (let cmd = ffmpeg_cmd E in_path out_path date_iso location_text lat lon;
          (raised, out) = ffmpeg_run E cmd (files w in_path);
          w1 = emit (Ffmpeg in_path out_path)
                 (case out of
                    None \<Rightarrow> w
                  | Some b \<Rightarrow> w\<lparr>files := (files w)(out_path \<mapsto> Bytes b)\<rparr>)
      in (case raised of Some e \<Rightarrow> Inl e | None \<Rightarrow> Inr (), w1))"

definition tag_jpeg_tiff_exif ::
  "env \<Rightarrow> path \<Rightarrow> string \<Rightarrow> real option \<Rightarrow> real option \<Rightarrow> string \<Rightarrow> world
     \<Rightarrow> (exn + unit) \<times> world" where
  "tag_jpeg_tiff_exif E p date_str_for_exif lat lon location_text w =
     (let exif = build_exif date_str_for_exif lat lon location_text
      in case piexif_dump_insert E exif (files w p) of
           Inl e \<Rightarrow> (Inl e, emit (PiexifInsert p) w)
         | Inr b \<Rightarrow> (Inr (), emit (PiexifInsert p) (w\<lparr>files := (files w)(p \<mapsto> Bytes b)\<rparr>)))"

definition tag_png_text ::
  "env \<Rightarrow> path \<Rightarrow> string \<Rightarrow> string \<Rightarrow> world \<Rightarrow> (exn + unit) \<times> world" where
  "tag_png_text E p date_iso location_text w =
     (let w1 = emit (PilOpen p) w
      in case pil_open E (files w p) of
           Some e \<Rightarrow> (Inl e, w1)
         | None \<Rightarrow>
             (let meta = [(''Creation Time'', date_iso),
                          (''Location'', location_text),
                          (''Comment'', ''Location: '' @ location_text @ '' | Date: '' @ date_iso)]
              in case with_suffix p ''.tagged.png'' of
                   Inl e \<Rightarrow> (Inl e, w1)
                 | Inr tmp \<Rightarrow>
                     (let (raised, out) = pil_save E (files w p) meta;
                          w2 = emit (PilSave tmp)
                                 (case out of
                                    None \<Rightarrow> w1
                                  | Some b \<Rightarrow> w1\<lparr>files := (files w1)(tmp \<mapsto> Bytes b)\<rparr>)
                      in case raised of
                           Some e \<Rightarrow> (Inl e, w2)
                         | None \<Rightarrow> os_replace tmp p w2)))"

section \<open>The main loop\<close>

record config =
  out_dir :: string
  starting_index :: int

text \<open>The variables of one iteration that the tagging code reads.\<close>

record item =
  kind :: string
  kind_norm :: string
  date_iso :: string
  dt_exif :: string
  location_str :: string
  lat :: "real option"
  lon :: "real option"

definition jnum :: "real option \<Rightarrow> jvalue" where
  "jnum x = (case x of None \<Rightarrow> JNull | Some v \<Rightarrow> JNum v)"

definition jstr :: "string option \<Rightarrow> jvalue" where
  "jstr x = (case x of None \<Rightarrow> JNull | Some v \<Rightarrow> JStr v)"

definition sidecar_dict :: "item \<Rightarrow> string option \<Rightarrow> (string \<times> jvalue) list" where
  "sidecar_dict it content_type =
     [(''kind'', JStr (kind it)), (''date'', JStr (date_iso it)),
      (''location'', JStr (location_str it)), (''lat'', jnum (lat it)),
      (''lon'', jnum (lon it)), (''content_type'', jstr content_type)]"

text \<open>\<open>sidecar = file_path.with_suffix(file_path.suffix + ".json")\<close> and
  \<open>sidecar.write_text(json.dumps(d, indent=2))\<close>.\<close>

definition write_sidecar ::
  "path \<Rightarrow> (string \<times> jvalue) list \<Rightarrow> world \<Rightarrow> (exn + unit) \<times> world" where
  "write_sidecar file_path d w =
     (case with_suffix file_path (suffix file_path @ ''.json'') of
        Inl e \<Rightarrow> (Inl e, w)
      | Inr sidecar \<Rightarrow> (Inr (), write_text_json sidecar d w))"

text \<open>\<open>s.replace(".", ".tagged.", 1)\<close>: the first dot only.\<close>

fun replace_first_dot :: "string \<Rightarrow> string" where
  "replace_first_dot [] = []"
| "replace_first_dot (c # s) =
     (if c = CHR ''.'' then ''.tagged.'' @ s else c # replace_first_dot s)"

text \<open>The body of the second \<open>try\<close> of the loop: zip, video, image or sidecar.\<close>

definition tagging ::
  "env \<Rightarrow> item \<Rightarrow> path \<Rightarrow> string option \<Rightarrow> string \<Rightarrow> world \<Rightarrow> (exn + unit) \<times> world" where
  "tagging E it file_path content_type suf w =
     (case is_zip file_path content_type w of
        (Inl e, w1) \<Rightarrow> (Inl e, w1)
      | (Inr z, w1) \<Rightarrow>
          if z then save_zip file_path suf w1
          else if kind_norm it = ''video'' \<and> which_ffmpeg E then
            (case with_suffix file_path (replace_first_dot (suffix file_path)) of
               Inl e \<Rightarrow> (Inl e, w1)
             | Inr tagged \<Rightarrow>
                 (case write_video_metadata_ffmpeg E file_path tagged (date_iso it)
                         (location_str it) (lat it) (lon it) w1 of
                    (Inl e, w2) \<Rightarrow> (Inl e, w2)
                  | (Inr u, w2) \<Rightarrow> os_replace tagged file_path (unlink_missing_ok file_path w2)))
          else if kind_norm it = ''image'' then
            (if suf \<in> set [''.jpg'', ''.jpeg'', ''.tif'', ''.tiff''] then
               tag_jpeg_tiff_exif E file_path (dt_exif it) (lat it) (lon it) (location_str it) w1
             else if suf = ''.png'' then
               tag_png_text E file_path (date_iso it) (location_str it) w1
             else write_sidecar file_path (sidecar_dict it content_type) w1)
          else write_sidecar file_path (sidecar_dict it content_type) w1)"

text \<open>The handler \<open>except Exception as e\<close>: every exception of the model is an
  \<open>Exception\<close>. What the handler itself raises is not caught.\<close>

definition tagging_failed ::
  "item \<Rightarrow> path \<Rightarrow> string option \<Rightarrow> exn \<Rightarrow> world \<Rightarrow> (exn + unit) \<times> world" where
  "tagging_failed it file_path content_type e w =
     write_sidecar file_path (sidecar_dict it content_type @ [(''tag_error'', JStr (exn_str e))]) w"

text \<open>\<open>input("Press Enter to close...")\<close>, the last statement of the loop body.\<close>

definition press_enter :: "env \<Rightarrow> nat \<Rightarrow> world \<Rightarrow> exn option \<times> world" where
  "press_enter E i w =
     (case stdin_line E i of
        None \<Rightarrow> (Some (EOFError ''EOF when reading a line''), emit Input w)
      | Some l \<Rightarrow> (None, emit Input w))"

text \<open>
  The second half of the loop body, from \<open>suffix = file_path.suffix.lower()\<close> on:
  the tagging, its handler and the final \<open>input\<close>.
\<close>

definition tag_item ::
  "env \<Rightarrow> nat \<Rightarrow> item \<Rightarrow> path \<Rightarrow> string option \<Rightarrow> world \<Rightarrow> exn option \<times> world" where
  "tag_item E i it file_path content_type w1 =
     (let suf = py_lower (suffix file_path)
      in case tagging E it file_path content_type suf w1 of
           (Inr u, w2) \<Rightarrow> press_enter E i w2
         | (Inl e, w2) \<Rightarrow>
             (case tagging_failed it file_path content_type e w2 of
                (Inl e', w3) \<Rightarrow> (Some e', w3)
              | (Inr u, w3) \<Rightarrow> press_enter E i w3))"

text \<open>
  One iteration of the loop over the rows. The result is \<open>None\<close> when the loop goes on
  to the next row and \<open>Some e\<close> when the exception \<open>e\<close> leaves the loop and ends the
  run. The \<open>print\<close> calls are left out.
\<close>

definition process_row :: "env \<Rightarrow> config \<Rightarrow> nat \<Rightarrow> row \<Rightarrow> world \<Rightarrow> exn option \<times> world" where
  "process_row E cfg i r w =
     (if length (tds r) < 4 then (None, w)
      else if int i < starting_index cfg then (None, w)
      else
        (let date_str = tds r ! 0;
             knd = tds r ! 1;
             loc = tds r ! 2;
             url = extract_download_url E r;
             knd_norm = py_lower (py_strip knd)
         in case parse_iso8601_utc date_str of
              Inl e \<Rightarrow> (Some e, w)
            | Inr iso_text \<Rightarrow>
                (case strptime_utc (py_strip date_str) of
                   Inl e \<Rightarrow> (Some e, w)
                 | Inr dt \<Rightarrow>
                     (let it = \<lparr>kind = knd, kind_norm = knd_norm, date_iso = iso_text,
                                dt_exif = strftime_exif dt, location_str = loc,
                                lat = fst (parse_lat_lon loc), lon = snd (parse_lat_lon loc)\<rparr>;
                          base = safe_filename
                                   (filter (\<lambda>c. c \<noteq> CHR '':'') (str_nat i @ ''_'' @ iso_text));
                          out_stem = Path (out_dir cfg) base
                      in case download_file E url out_stem knd_norm w of
                           (Inl e, w1) \<Rightarrow>
                             if is_HTTPError e then
                               (None, add_line_to_file (Path (out_dir cfg) ''not_saved.txt'')
                                        (str_nat i @ ''_'' @ knd @ '' '' @ date_str) w1)
                             else (Some e, w1)
                         | (Inr (file_path, content_type), w1) \<Rightarrow>
                             tag_item E i it file_path content_type w1))))"

text \<open>\<open>for i, row in enumerate(rows, start=0)\<close>, from index \<open>i\<close> on.\<close>

fun main_loop :: "env \<Rightarrow> config \<Rightarrow> nat \<Rightarrow> row list \<Rightarrow> world \<Rightarrow> exn option \<times> world" where
  "main_loop E cfg i [] w = (None, w)"
| "main_loop E cfg i (r # rows) w =
     (case process_row E cfg i r w of
        (Some e, w') \<Rightarrow> (Some e, w')
      | (None, w') \<Rightarrow> main_loop E cfg (Suc i) rows w')"

section \<open>Notions the properties are stated with\<close>

text \<open>The sleeps a log records, in order, with their lengths in seconds.\<close>

fun sleeps :: "event list \<Rightarrow> nat list" where
  "sleeps [] = []"
| "sleeps (Sleep t # es) = t # sleeps es"
| "sleeps (e # es) = sleeps es"

text \<open>The renames a log records, in order.\<close>

fun replaces :: "event list \<Rightarrow> (path \<times> path) list" where
  "replaces [] = []"
| "replaces (Replace a b # es) = (a, b) # replaces es"
| "replaces (e # es) = replaces es"

text \<open>The exception an answer of the network makes the body of the \<open>try\<close> in
  \<open>download_file\<close> raise, if any.\<close>

fun try_outcome :: "http_result \<Rightarrow> exn option" where
  "try_outcome (GetRaises e) = Some e"
| "try_outcome (Response status content_type chunks ending) =
     (case raise_for_status status of Some e \<Rightarrow> Some e | None \<Rightarrow> ending)"

text \<open>What the \<open>k\<close>-th request after the state \<open>w\<close> makes the \<open>try\<close> body raise.\<close>

definition outcome_at :: "env \<Rightarrow> string \<Rightarrow> world \<Rightarrow> nat \<Rightarrow> exn option" where
  "outcome_at E u w k = try_outcome (requests_get E (nreq w + k) u)"

text \<open>The stem of the output path of item \<open>i\<close>, the path of the ledger, and the line
  the ledger gets for row \<open>r\<close>, as the loop body computes them.\<close>

definition out_stem_of :: "config \<Rightarrow> nat \<Rightarrow> string \<Rightarrow> path" where
  "out_stem_of cfg i iso_text =
     Path (out_dir cfg)
       (safe_filename (filter (\<lambda>c. c \<noteq> CHR '':'') (str_nat i @ ''_'' @ iso_text)))"

definition not_saved_path :: "config \<Rightarrow> path" where
  "not_saved_path cfg = Path (out_dir cfg) ''not_saved.txt''"

definition not_saved_line :: "nat \<Rightarrow> row \<Rightarrow> string" where
  "not_saved_line i r = str_nat i @ ''_'' @ tds r ! 1 @ '' '' @ tds r ! 0"

text \<open>The call of \<open>download_file\<close> the loop body makes for row \<open>r\<close> at index \<open>i\<close>,
  the timestamp of the row being \<open>iso_text\<close> in ISO form.\<close>

definition fetch ::
  "env \<Rightarrow> config \<Rightarrow> nat \<Rightarrow> row \<Rightarrow> string \<Rightarrow> world \<Rightarrow> (exn + path \<times> string option) \<times> world" where
  "fetch E cfg i r iso_text w =
     download_file E (extract_download_url E r) (out_stem_of cfg i iso_text)
       (py_lower (py_strip (tds r ! 1))) w"

subsection \<open>Concrete inputs\<close>

definition world0 :: world where
  "world0 = \<lparr>files = Map.empty, log = [], nreq = 0\<rparr>"

text \<open>An environment where no library knows anything, every request is answered
  \<open>200\<close> with a two-chunk body and no Content-Type, ffmpeg is not installed and the
  console always has a line.\<close>

definition env0 :: env where
  "env0 =
     \<lparr>mimetypes_guess_extension = (\<lambda>ct. None),
      url_path_suffix = (\<lambda>u. []),
      html_unescape = (\<lambda>s. s),
      format_4f = (\<lambda>x. ''+0.0000''),
      requests_get = (\<lambda>n u. Response 200 None [''ab'', ''cd''] None),
      which_ffmpeg = False,
      ffmpeg_run = (\<lambda>cmd c. (None, None)),
      piexif_dump_insert = (\<lambda>d c. Inl (LibraryError ''InvalidImageDataError'')),
      pil_open = (\<lambda>c. Some (LibraryError ''UnidentifiedImageError'')),
      pil_save = (\<lambda>c m. (None, None)),
      stdin_line = (\<lambda>i. Some [])\<rparr>"

definition stem0 :: path where
  "stem0 = Path ''out'' ''3_2025-11-12T210503Z''"

text \<open>Every request fails in the TLS handshake; every request is answered 404.\<close>

definition env_tls :: env where
  "env_tls = env0\<lparr>requests_get := (\<lambda>n u. GetRaises (SSLError ''tls''))\<rparr>"

definition env_404 :: env where
  "env_404 = env0\<lparr>requests_get := (\<lambda>n u. Response 404 None [] None)\<rparr>"

text \<open>The MIME table knows \<open>image/png\<close> only.\<close>

definition env_png :: env where
  "env_png = env0\<lparr>mimetypes_guess_extension :=
                     (\<lambda>ct. if ct = ''image/png'' then Some ''.png'' else None)\<rparr>"

text \<open>A configuration, and rows: a well-formed video, an image, a row whose first cell
  is no timestamp, and the header row (no \<open>td\<close> cells).\<close>

definition cfg0 :: config where
  "cfg0 = \<lparr>out_dir = ''out'', starting_index = 0\<rparr>"

definition onclick0 :: string where
  "onclick0 = ''downloadMemories('' @ [CHR 0x27] @ ''https://h/a'' @ [CHR 0x27] @ '', this, true);''"

definition row_video :: row where
  "row_video =
     \<lparr>tds = [''2025-11-12 21:05:03 UTC'', ''Video'', ''Latitude, Longitude: 48.5, 2.25'', []],
      anchor_onclick = Some onclick0\<rparr>"

definition row_image :: row where
  "row_image =
     \<lparr>tds = [''2025-11-13 08:00:00 UTC'', ''Image'', ''Latitude, Longitude: 48.5, 2.25'', []],
      anchor_onclick = Some onclick0\<rparr>"

definition row_bad_date :: row where
  "row_bad_date =
     \<lparr>tds = [''12/11/2025 21:05'', ''Video'', ''Latitude, Longitude: 48.5, 2.25'', []],
      anchor_onclick = Some onclick0\<rparr>"

definition row_header :: row where
  "row_header = \<lparr>tds = [], anchor_onclick = None\<rparr>"

text \<open>ffmpeg is installed; every request is answered with an MP4 body. The process
  exits with status 0 and leaves no file at its output path.\<close>

definition env_ffmpeg_no_output :: env where
  "env_ffmpeg_no_output =
     env0\<lparr>requests_get := (\<lambda>n u. Response 200 (Some ''video/mp4'') [''ab'', ''cd''] None),
          which_ffmpeg := True,
          ffmpeg_run := (\<lambda>cmd c. (None, None))\<rparr>"

text \<open>A downloaded file that is a zip archive under a video name, and the variables of
  its iteration.\<close>

definition zip_as_mp4 :: path where
  "zip_as_mp4 = Path ''out'' ''3_2025-11-12T210503Z.mp4''"

definition world_zip :: world where
  "world_zip = world0\<lparr>files := [zip_as_mp4 \<mapsto> Bytes (zip_signature @ ''rest'')]\<rparr>"

definition item_video :: item where
  "item_video =
     \<lparr>kind = ''Video'', kind_norm = ''video'', date_iso = ''2025-11-12T21:05:03Z'',
      dt_exif = ''2025:11:12 21:05:03'', location_str = ''Paris'', lat = None, lon = None\<rparr>"

section \<open>Properties of the GPS encoding\<close>

lemma py_round_close: "\<bar>of_int (py_round x) - x\<bar> \<le> 1 / 2"
  unfolding py_round_def Let_def by (auto simp: abs_le_iff)

lemma dms_roundtrip: "\<bar>dms_to_deg (deg_to_dms_rational x) - \<bar>x\<bar>\<bar> \<le> 1 / 720000"
proof -
  define a where "a = \<bar>x\<bar>"
  define d where "d = py_int a"
  define mf where "mf = (a - of_int d) * 60"
  define m where "m = py_int mf"
  define s where "s = (mf - of_int m) * 60"
  have e: "dms_to_deg (deg_to_dms_rational x) =
             of_int d + of_int m / 60 + (of_int (py_round (s * 100)) / 100) / 3600"
    by (simp add: dms_to_deg_def deg_to_dms_rational_def Let_def rational_value_def
          a_def d_def mf_def m_def s_def)
  have a: "a = of_int d + of_int m / 60 + s / 3600"
    by (simp add: s_def mf_def field_simps)
  have "\<bar>of_int (py_round (s * 100)) - s * 100\<bar> \<le> 1 / 2"
    by (rule py_round_close)
  then have "\<bar>of_int (py_round (s * 100)) / 100 - s\<bar> \<le> 1 / 200"
    by (simp add: abs_le_iff field_simps)
  then have "\<bar>(of_int (py_round (s * 100)) / 100) / 3600 - s / 3600\<bar> \<le> 1 / 720000"
    by (simp add: abs_le_iff field_simps)
  moreover have "dms_to_deg (deg_to_dms_rational x) - a =
                   (of_int (py_round (s * 100)) / 100) / 3600 - s / 3600"
    unfolding e using a by simp
  ultimately show ?thesis unfolding a_def by simp
qed

lemma dms_seconds_denominator: "snd (snd (snd (deg_to_dms_rational x))) = 100"
  by (simp add: deg_to_dms_rational_def Let_def)

text \<open>
  C9. For all decimal-degree coordinates, the GPS entries of the EXIF dictionary that
  \<open>tag_jpeg_tiff_exif\<close> builds hold, for the latitude and for the longitude, a
  degrees/minutes/seconds triple of \<open>_deg_to_dms_rational\<close> whose seconds have the
  denominator 100 and which decodes (as d + m/60 + s/3600) to within 1/360000 of a degree
  of the absolute value of the input; the reference letters are N or S by the sign of
  the latitude and E or W by the sign of the longitude. (Coordinates are exact reals
  here; the rounding of binary64 arithmetic is outside the model.)
\<close>

theorem gps_encoding_roundtrip:
  "(\<exists>t. map_of (ifd_GPS (build_exif d (Some la) (Some lo) loc)) GPSLatitude = Some (Dms t)
        \<and> t = deg_to_dms_rational la \<and> snd (snd (snd t)) = 100
        \<and> \<bar>dms_to_deg t - \<bar>la\<bar>\<bar> \<le> 1 / 360000)
   \<and> (\<exists>t. map_of (ifd_GPS (build_exif d (Some la) (Some lo) loc)) GPSLongitude = Some (Dms t)
        \<and> t = deg_to_dms_rational lo \<and> snd (snd (snd t)) = 100
        \<and> \<bar>dms_to_deg t - \<bar>lo\<bar>\<bar> \<le> 1 / 360000)
   \<and> map_of (ifd_GPS (build_exif d (Some la) (Some lo) loc)) GPSLatitudeRef
        = Some (Ascii (if 0 \<le> la then ''N'' else ''S''))
   \<and> map_of (ifd_GPS (build_exif d (Some la) (Some lo) loc)) GPSLongitudeRef
        = Some (Ascii (if 0 \<le> lo then ''E'' else ''W''))"
proof -
  have b: "\<bar>dms_to_deg (deg_to_dms_rational x) - \<bar>x\<bar>\<bar> \<le> 1 / 360000" for x
    using dms_roundtrip[of x] by simp
  have g: "ifd_GPS (build_exif d (Some la) (Some lo) loc) =
             [(GPSLatitudeRef, Ascii (if 0 \<le> la then ''N'' else ''S'')),
              (GPSLongitudeRef, Ascii (if 0 \<le> lo then ''E'' else ''W'')),
              (GPSLatitude, Dms (deg_to_dms_rational la)),
              (GPSLongitude, Dms (deg_to_dms_rational lo))]"
    by (simp add: build_exif_def gps_ifd_def)
  show ?thesis
    unfolding g using b[of la] b[of lo] dms_seconds_denominator[of la] dms_seconds_denominator[of lo]
    by (simp del: divide_le_eq_numeral1 le_divide_eq_numeral1)
qed

section \<open>Properties of is\_zip\<close>

lemma ct_media_type_Nil: "ct_media_type [] = []"
  by (simp add: ct_media_type_def py_lower_def py_strip_def split_semicolon_first_def)

text \<open>
  C6. For every file path and declared content-type: when the media-type part of the
  content-type (the text before the first semicolon, stripped, in lower case) is
  \<open>application/zip\<close> or \<open>application/x-zip-compressed\<close>, \<open>is_zip\<close> returns true
  whatever the file holds, or whether it exists; and when the first four bytes of the
  file are the signature \<open>PK\x03\x04\<close>, \<open>is_zip\<close> returns true whatever content-type
  is declared, also when none is.
\<close>

theorem is_zip_header_or_signature:
  "(ct_media_type c \<in> {''application/zip'', ''application/x-zip-compressed''}
      \<longrightarrow> fst (is_zip p (Some c) w) = Inr True)
   \<and> (files w p = Some (Bytes b) \<and> take 4 b = [CHR ''P'', CHR ''K'', CHR 0x03, CHR 0x04]
      \<longrightarrow> fst (is_zip p content_type w) = Inr True)"
proof (intro conjI impI)
  assume h: "ct_media_type c \<in> {''application/zip'', ''application/x-zip-compressed''}"
  then have "c \<noteq> []" using ct_media_type_Nil by auto
  with h show "fst (is_zip p (Some c) w) = Inr True"
    by (simp add: is_zip_def zip_mimes_def)
next
  assume "files w p = Some (Bytes b) \<and> take 4 b = [CHR ''P'', CHR ''K'', CHR 0x03, CHR 0x04]"
  then show "fst (is_zip p content_type w) = Inr True"
    by (simp add: is_zip_def open_read4_def zip_signature_def Let_def split: option.splits)
qed

theorem is_zip_header_or_signature_witness:
  "ct_media_type ''Application/ZIP; charset=binary''
     \<in> {''application/zip'', ''application/x-zip-compressed''}
   \<and> fst (is_zip stem0 (Some ''Application/ZIP; charset=binary'') world0) = Inr True
   \<and> files (world0\<lparr>files := [stem0 \<mapsto> Bytes (zip_signature @ ''rest'')]\<rparr>) stem0
       = Some (Bytes (zip_signature @ ''rest''))
   \<and> take 4 (zip_signature @ ''rest'') = [CHR ''P'', CHR ''K'', CHR 0x03, CHR 0x04]
   \<and> fst (is_zip stem0 (Some ''video/mp4'')
            (world0\<lparr>files := [stem0 \<mapsto> Bytes (zip_signature @ ''rest'')]\<rparr>)) = Inr True
   \<and> fst (is_zip stem0 None
            (world0\<lparr>files := [stem0 \<mapsto> Bytes (zip_signature @ ''rest'')]\<rparr>)) = Inr True"
proof -
  have h1: "ct_media_type ''Application/ZIP; charset=binary''
              \<in> {''application/zip'', ''application/x-zip-compressed''}"
    by code_simp
  have h2: "files (world0\<lparr>files := [stem0 \<mapsto> Bytes (zip_signature @ ''rest'')]\<rparr>) stem0
              = Some (Bytes (zip_signature @ ''rest''))
            \<and> take 4 (zip_signature @ ''rest'') = [CHR ''P'', CHR ''K'', CHR 0x03, CHR 0x04]"
    by (simp add: zip_signature_def)
  show ?thesis
    using h1 h2
      is_zip_header_or_signature [of "''Application/ZIP; charset=binary''" stem0 world0]
      is_zip_header_or_signature
        [of _ stem0 "world0\<lparr>files := [stem0 \<mapsto> Bytes (zip_signature @ ''rest'')]\<rparr>"
            "zip_signature @ ''rest''" "Some ''video/mp4''"]
      is_zip_header_or_signature
        [of _ stem0 "world0\<lparr>files := [stem0 \<mapsto> Bytes (zip_signature @ ''rest'')]\<rparr>"
            "zip_signature @ ''rest''" None]
    by blast
qed

text \<open>
  C10. \<open>is_zip\<close> never raises: for every path, content-type and state of the file
  system it returns a boolean. When the declared content-type is a zip MIME string it
  returns true and the state is as before, nothing having been opened or read. When the
  content-type is absent, empty or not a zip MIME string and the file is absent or may
  not be read (the \<open>OSError\<close> of \<open>open\<close>), it returns false.
\<close>

theorem is_zip_total:
  "(\<exists>b. fst (is_zip p content_type w) = Inr b)
   \<and> (ct_media_type c \<in> {''application/zip'', ''application/x-zip-compressed''}
        \<longrightarrow> is_zip p (Some c) w = (Inr True, w))
   \<and> ((content_type = None \<or> content_type = Some [] \<or>
        (\<exists>c'. content_type = Some c'
           \<and> ct_media_type c' \<notin> {''application/zip'', ''application/x-zip-compressed''}))
        \<and> (files w p = None \<or> files w p = Some Unreadable)
        \<longrightarrow> fst (is_zip p content_type w) = Inr False)"
proof (intro conjI impI)
  show "\<exists>b. fst (is_zip p content_type w) = Inr b"
    by (auto simp add: is_zip_def open_read4_def Let_def split: option.splits content.splits)
next
  assume h: "ct_media_type c \<in> {''application/zip'', ''application/x-zip-compressed''}"
  then have "c \<noteq> []" using ct_media_type_Nil by auto
  with h show "is_zip p (Some c) w = (Inr True, w)"
    by (simp add: is_zip_def zip_mimes_def)
next
  assume "(content_type = None \<or> content_type = Some [] \<or>
           (\<exists>c'. content_type = Some c'
              \<and> ct_media_type c' \<notin> {''application/zip'', ''application/x-zip-compressed''}))
          \<and> (files w p = None \<or> files w p = Some Unreadable)"
  then show "fst (is_zip p content_type w) = Inr False"
    by (auto simp add: is_zip_def open_read4_def Let_def zip_mimes_def
          split: option.splits content.splits)
qed

theorem is_zip_total_witness:
  "ct_media_type ''application/x-zip-compressed''
     \<in> {''application/zip'', ''application/x-zip-compressed''}
   \<and> is_zip stem0 (Some ''application/x-zip-compressed'') world0 = (Inr True, world0)
   \<and> ct_media_type ''video/mp4'' \<notin> {''application/zip'', ''application/x-zip-compressed''}
   \<and> files world0 stem0 = None
   \<and> fst (is_zip stem0 (Some ''video/mp4'') world0) = Inr False
   \<and> files (world0\<lparr>files := [stem0 \<mapsto> Unreadable]\<rparr>) stem0 = Some Unreadable
   \<and> fst (is_zip stem0 None (world0\<lparr>files := [stem0 \<mapsto> Unreadable]\<rparr>)) = Inr False"
proof -
  have h1: "ct_media_type ''application/x-zip-compressed''
              \<in> {''application/zip'', ''application/x-zip-compressed''}"
    by code_simp
  have h2: "ct_media_type ''video/mp4'' \<notin> {''application/zip'', ''application/x-zip-compressed''}"
    by code_simp
  have h3: "files world0 stem0 = None" by (simp add: world0_def)
  have h4: "files (world0\<lparr>files := [stem0 \<mapsto> Unreadable]\<rparr>) stem0 = Some Unreadable" by simp
  show ?thesis
    using h1 h2 h3 h4
      is_zip_total [of stem0 "Some ''video/mp4''" world0 "''application/x-zip-compressed''"]
      is_zip_total [of stem0 None "world0\<lparr>files := [stem0 \<mapsto> Unreadable]\<rparr>"]
    by blast
qed


section \<open>Facts about paths\<close>

lemma takeWhile_rev_nodot:
  "CHR ''.'' \<notin> set t \<Longrightarrow> takeWhile (\<lambda>x. x \<noteq> CHR ''.'') (rev t @ CHR ''.'' # r) = rev t"
  by (induction t rule: rev_induct) auto

lemma name_suffix_append:
  "s \<noteq> [] \<Longrightarrow> t \<noteq> [] \<Longrightarrow> CHR ''.'' \<notin> set t \<Longrightarrow> name_suffix (s @ CHR ''.'' # t) = CHR ''.'' # t"
proof -
  assume s: "s \<noteq> []" and t: "t \<noteq> []" and nd: "CHR ''.'' \<notin> set t"
  have tw: "takeWhile (\<lambda>x. x \<noteq> CHR ''.'') (rev (s @ CHR ''.'' # t)) = rev t"
    using takeWhile_rev_nodot[OF nd] by simp
  have "rfind (CHR ''.'') (s @ CHR ''.'' # t) = Some (length s)"
    unfolding rfind_def tw by (simp add: Let_def)
  then show ?thesis using s t by (simp add: name_suffix_def)
qed

lemma name_suffix_drop:
  "name_suffix n \<noteq> [] \<Longrightarrow> \<exists>i. 0 < i \<and> i < length n \<and> name_suffix n = drop i n"
  by (auto simp: name_suffix_def split: option.splits if_splits)

lemma name_stem_suffix:
  "name_suffix n \<noteq> [] \<Longrightarrow>
     take (length n - length (name_suffix n)) n \<noteq> [] \<and>
     take (length n - length (name_suffix n)) n @ name_suffix n = n"
proof -
  assume "name_suffix n \<noteq> []"
  then obtain i where i: "0 < i" "i < length n" "name_suffix n = drop i n"
    using name_suffix_drop by blast
  then have "length n - length (name_suffix n) = i" by simp
  with i show ?thesis by auto
qed

lemma with_suffix_Inr:
  "name p \<noteq> [] \<Longrightarrow> CHR ''/'' \<notin> set suf \<Longrightarrow> suf = [] \<or> (hd suf = CHR ''.'' \<and> suf \<noteq> ''.'') \<Longrightarrow>
     with_suffix p suf =
       Inr (Path (parent p)
         ((if suffix p = [] then name p else take (length (name p) - length (suffix p)) (name p)) @ suf))"
  by (auto simp: with_suffix_def Let_def)

lemma with_suffix_name:
  "with_suffix p suf = Inr q \<Longrightarrow>
     name q \<noteq> [] \<and> parent q = parent p \<and> set (name q) \<subseteq> set (name p) \<union> set suf"
  by (auto simp: with_suffix_def Let_def suffix_def split: if_splits
        dest: name_stem_suffix in_set_takeD)

lemma with_suffix_jpg:
  "name p \<noteq> [] \<Longrightarrow> \<exists>q. with_suffix p ''.jpg'' = Inr q \<and> suffix q = ''.jpg''"
proof -
  assume n: "name p \<noteq> []"
  define st where
    "st = (if suffix p = [] then name p else take (length (name p) - length (suffix p)) (name p))"
  have st: "st \<noteq> []" using n name_stem_suffix[of "name p"] by (auto simp: st_def suffix_def)
  have "with_suffix p ''.jpg'' = Inr (Path (parent p) (st @ ''.jpg''))"
    using with_suffix_Inr[OF n, of "''.jpg''"] by (simp add: st_def)
  moreover have "name_suffix (st @ CHR ''.'' # ''jpg'') = CHR ''.'' # ''jpg''"
    by (rule name_suffix_append) (use st in auto)
  ultimately show ?thesis by (simp add: suffix_def)
qed

lemma with_suffix_empty:
  "name p \<noteq> [] \<Longrightarrow> suffix p = [] \<Longrightarrow> with_suffix p [] = Inr p"
  by (simp add: with_suffix_def)

lemma rfind_Some: "rfind c s = Some i \<Longrightarrow> i < length s \<and> s ! i = c"
proof -
  assume h: "rfind c s = Some i"
  define r where "r = takeWhile (\<lambda>x. x \<noteq> c) (rev s)"
  have le: "length r \<le> length s"
    unfolding r_def using length_takeWhile_le[of _ "rev s"] by simp
  from h have ne: "length r \<noteq> length s" and i: "i = length s - length r - 1"
    by (auto simp: rfind_def Let_def r_def split: if_splits)
  from le ne have lt: "length r < length (rev s)" by simp
  then have "\<not> (rev s ! length r \<noteq> c)"
    unfolding r_def by (rule nth_length_takeWhile)
  moreover have "rev s ! length r = s ! (length s - Suc (length r))"
    using lt by (simp add: rev_nth)
  ultimately show ?thesis using i lt by simp
qed

lemma suffix_shape: "suffix p = [] \<or> (hd (suffix p) = CHR ''.'' \<and> suffix p \<noteq> ''.'')"
proof (cases "rfind (CHR ''.'') (name p)")
  case None
  then show ?thesis by (simp add: suffix_def name_suffix_def)
next
  case (Some i)
  then have "i < length (name p)" "name p ! i = CHR ''.''" using rfind_Some by blast+
  then have "hd (drop i (name p)) = CHR ''.''" by (simp add: hd_drop_conv_nth)
  moreover have "i < length (name p) - 1 \<Longrightarrow> drop i (name p) \<noteq> ''.''"
  proof
    assume lt: "i < length (name p) - 1" and eq: "drop i (name p) = ''.''"
    have "length (drop i (name p)) = length ''.''" by (rule arg_cong[OF eq])
    then have "length (name p) - i = 1" by (simp only: length_drop) simp
    with lt show False by arith
  qed
  ultimately show ?thesis using Some by (auto simp: suffix_def name_suffix_def)
qed

lemma suffix_subset: "set (suffix p) \<subseteq> set (name p)"
  by (auto simp: suffix_def name_suffix_def split: option.splits if_splits dest: in_set_dropD)

lemma write_sidecar_ok:
  assumes n: "name p \<noteq> []" and sl: "CHR ''/'' \<notin> set (name p)"
  shows "write_sidecar p d w = (Inr (), write_text_json (Path (parent p) (name p @ ''.json'')) d w)"
proof -
  have a: "CHR ''/'' \<notin> set (suffix p @ ''.json'')" using suffix_subset[of p] sl by auto
  have b: "suffix p @ ''.json'' = []
           \<or> (hd (suffix p @ ''.json'') = CHR ''.'' \<and> suffix p @ ''.json'' \<noteq> ''.'')"
    using suffix_shape[of p] by (cases "suffix p") auto
  have c: "(if suffix p = [] then name p
            else take (length (name p) - length (suffix p)) (name p)) @ suffix p = name p"
    using name_stem_suffix[of "name p"] by (auto simp: suffix_def)
  have "with_suffix p (suffix p @ ''.json'') = Inr (Path (parent p) (name p @ ''.json''))"
    using with_suffix_Inr[OF n a b] c by (metis append.assoc)
  then show ?thesis by (simp add: write_sidecar_def)
qed

section \<open>Properties of download\_file\<close>

lemma sleeps_append: "sleeps (a @ b) = sleeps a @ sleeps b"
  by (induction a rule: sleeps.induct) auto

lemma replaces_append: "replaces (a @ b) = replaces a @ replaces b"
  by (induction a rule: replaces.induct) auto

lemma write_chunks_nreq: "nreq (write_chunks p cs w) = nreq w"
  by (induction cs arbitrary: w) (auto simp: write_chunk_def emit_def)

lemma write_chunks_log:
  "log (write_chunks p cs w) = log w @ map (WriteChunk p) (filter (\<lambda>c. c \<noteq> []) cs)"
  by (induction cs arbitrary: w) (auto simp: write_chunk_def emit_def)

lemma write_chunks_files:
  "files w p = Some (Bytes b) \<Longrightarrow>
     files (write_chunks p cs w) = (files w)(p \<mapsto> Bytes (b @ concat cs))"
  by (induction cs arbitrary: w b) (auto simp: write_chunk_def emit_def bytes_of_def)

lemma sleeps_map_WriteChunk: "sleeps (map (WriteChunk p) cs) = []"
  by (induction cs) auto

lemma replaces_map_WriteChunk: "replaces (map (WriteChunk p) cs) = []"
  by (induction cs) auto

lemma attempt_once_D:
  assumes "attempt_once E (Some u) tmp w = (r, w1)"
  shows "nreq w1 = Suc (nreq w)"
    and "sleeps (log w1) = sleeps (log w)"
    and "\<And>e. try_outcome (requests_get E (nreq w) u) = Some e \<Longrightarrow> r = Inl e"
    and "try_outcome (requests_get E (nreq w) u) = None \<Longrightarrow> \<exists>ct. r = Inr ct"
    and "\<And>p. p \<noteq> tmp \<Longrightarrow> files w1 p = files w p"
  using assms
  by (auto simp: attempt_once_def Let_def emit_def open_write_def write_chunks_nreq
        write_chunks_log sleeps_append sleeps_map_WriteChunk write_chunks_files
      split: http_result.splits option.splits)

lemma attempt_once_facts:
  "attempt_once E (Some u) tmp w = (r, w1) \<Longrightarrow>
     nreq w1 = Suc (nreq w) \<and> sleeps (log w1) = sleeps (log w) \<and>
     (case try_outcome (requests_get E (nreq w) u) of
        Some e \<Rightarrow> r = Inl e
      | None \<Rightarrow> (\<exists>ct. r = Inr ct))"
  using attempt_once_D[of E u tmp w r w1] by (auto split: option.splits)

lemma upt_1_4: "[1 ..< max_retries + 1] = [Suc 0, 2, 3]"
  by (simp add: max_retries_def upt_rec)

lemma attempts_123:
  assumes A: "attempts E (Some u) tmp [Suc 0, 2, 3] w = (r, w')"
  shows "nreq w < nreq w' \<and> nreq w' \<le> nreq w + 3
    \<and> sleeps (log w') = sleeps (log w) @ replicate (nreq w' - nreq w - 1) 60
    \<and> (nreq w + 1 < nreq w' \<longrightarrow> (\<exists>e. outcome_at E u w 0 = Some e \<and> is_SSLError e))
    \<and> (nreq w + 2 < nreq w' \<longrightarrow> (\<exists>e. outcome_at E u w 1 = Some e \<and> is_SSLError e))
    \<and> (outcome_at E u w 0 = None \<longrightarrow> nreq w' = nreq w + 1 \<and> (\<exists>ct. r = Inr ct))
    \<and> (\<forall>e. outcome_at E u w 0 = Some e \<and> \<not> is_SSLError e \<longrightarrow> r = Inl e \<and> nreq w' = nreq w + 1)
    \<and> (\<forall>e0 e. outcome_at E u w 0 = Some e0 \<and> is_SSLError e0
              \<and> outcome_at E u w 1 = Some e \<and> \<not> is_SSLError e
          \<longrightarrow> r = Inl e \<and> nreq w' = nreq w + 2)
    \<and> (\<forall>e0 e1 e. outcome_at E u w 0 = Some e0 \<and> is_SSLError e0
              \<and> outcome_at E u w 1 = Some e1 \<and> is_SSLError e1 \<and> outcome_at E u w 2 = Some e
          \<longrightarrow> r = Inl e \<and> nreq w' = nreq w + 3)"
proof -
  obtain r1 w1 where a1: "attempt_once E (Some u) tmp w = (r1, w1)"
    by (cases "attempt_once E (Some u) tmp w")
  obtain r2 w2 where a2: "attempt_once E (Some u) tmp (emit (Sleep 60) w1) = (r2, w2)"
    by (cases "attempt_once E (Some u) tmp (emit (Sleep 60) w1)")
  obtain r3 w3 where a3: "attempt_once E (Some u) tmp (emit (Sleep 60) w2) = (r3, w3)"
    by (cases "attempt_once E (Some u) tmp (emit (Sleep 60) w2)")
  note f1 = attempt_once_facts[OF a1] and f2 = attempt_once_facts[OF a2]
    and f3 = attempt_once_facts[OF a3]
  have n1: "nreq (emit (Sleep 60) w1) = Suc (nreq w)" using f1 by (simp add: emit_def)
  have n2: "nreq (emit (Sleep 60) w2) = Suc (Suc (nreq w))" using f2 n1 by (simp add: emit_def)
  have s1: "sleeps (log (emit (Sleep 60) w1)) = sleeps (log w) @ [60]"
    using f1 by (simp add: emit_def sleeps_append)
  have s2: "sleeps (log (emit (Sleep 60) w2)) = sleeps (log w) @ [60, 60]"
    using f2 s1 by (simp add: emit_def sleeps_append)
  show ?thesis
    using A f1 f2 f3 unfolding n1 n2 s1 s2 outcome_at_def
    by (auto simp: a1 a2 a3 max_retries_def numeral_2_eq_2
          split: sum.splits option.splits if_splits)
qed

lemma os_replace_nreq_log:
  "os_replace a b w = (r, w') \<Longrightarrow> nreq w' = nreq w \<and> sleeps (log w') = sleeps (log w)"
  by (auto simp: os_replace_def emit_def sleeps_append split: option.splits)

text \<open>
  C5. Called with a URL and a stem that has a name, \<open>download_file\<close> makes at
  least one and at most three requests, and sleeps 60
  seconds, and only that, between one request and the next. A further request is made
  only after an \<open>SSLError\<close>. An exception of any other class, whether \<open>requests.get\<close>,
  \<open>raise_for_status\<close> (the statuses 400 to 599) or the reading of the body raises it,
  leaves \<open>download_file\<close> at once, with no further request and no sleep after it, on
  the first attempt as on a later one. Whatever the third attempt raises, the
  \<open>SSLError\<close> included, leaves \<open>download_file\<close> too.
\<close>

theorem download_file_retry_policy:
  assumes "name out_stem \<noteq> []"
  shows "nreq w < nreq (snd (download_file E (Some u) out_stem kn w))
    \<and> nreq (snd (download_file E (Some u) out_stem kn w)) \<le> nreq w + 3
    \<and> sleeps (log (snd (download_file E (Some u) out_stem kn w)))
        = sleeps (log w)
          @ replicate (nreq (snd (download_file E (Some u) out_stem kn w)) - nreq w - 1) 60
    \<and> (nreq w + 1 < nreq (snd (download_file E (Some u) out_stem kn w))
          \<longrightarrow> (\<exists>e. outcome_at E u w 0 = Some e \<and> is_SSLError e))
    \<and> (nreq w + 2 < nreq (snd (download_file E (Some u) out_stem kn w))
          \<longrightarrow> (\<exists>e. outcome_at E u w 1 = Some e \<and> is_SSLError e))
    \<and> (\<forall>e. outcome_at E u w 0 = Some e \<and> \<not> is_SSLError e
          \<longrightarrow> fst (download_file E (Some u) out_stem kn w) = Inl e
              \<and> nreq (snd (download_file E (Some u) out_stem kn w)) = nreq w + 1)
    \<and> (\<forall>e0 e. outcome_at E u w 0 = Some e0 \<and> is_SSLError e0
            \<and> outcome_at E u w 1 = Some e \<and> \<not> is_SSLError e
          \<longrightarrow> fst (download_file E (Some u) out_stem kn w) = Inl e
              \<and> nreq (snd (download_file E (Some u) out_stem kn w)) = nreq w + 2)
    \<and> (\<forall>e0 e1 e. outcome_at E u w 0 = Some e0 \<and> is_SSLError e0
            \<and> outcome_at E u w 1 = Some e1 \<and> is_SSLError e1 \<and> outcome_at E u w 2 = Some e
          \<longrightarrow> fst (download_file E (Some u) out_stem kn w) = Inl e
              \<and> nreq (snd (download_file E (Some u) out_stem kn w)) = nreq w + 3)"
proof -
  define w0 where "w0 = emit (Mkdir (parent out_stem)) w"
  have w0: "nreq w0 = nreq w" "sleeps (log w0) = sleeps (log w)"
    by (simp_all add: w0_def emit_def sleeps_append)
  have o: "outcome_at E u w0 = outcome_at E u w"
    by (rule ext) (simp add: outcome_at_def w0)
  obtain tmp where tmp: "with_suffix out_stem ''.download'' = Inr tmp"
    using with_suffix_Inr[OF assms, of "''.download''"] by auto
  obtain r w1 where A: "attempts E (Some u) tmp [Suc 0, 2, 3] w0 = (r, w1)"
    by (cases "attempts E (Some u) tmp [Suc 0, 2, 3] w0")
  note F = attempts_123[OF A, unfolded o w0]
  have D: "download_file E (Some u) out_stem kn w = (Inl e, w1)" if "r = Inl e" for e
    using that unfolding download_file_def upt_1_4 Let_def w0_def[symmetric] tmp
    by (simp add: A del: attempts.simps)
  have N: "nreq (snd (download_file E (Some u) out_stem kn w)) = nreq w1
         \<and> sleeps (log (snd (download_file E (Some u) out_stem kn w))) = sleeps (log w1)"
    unfolding download_file_def upt_1_4 Let_def w0_def[symmetric] tmp
    by (auto simp add: A simp del: attempts.simps split: sum.splits prod.splits
          dest: os_replace_nreq_log)
  show ?thesis
    unfolding N[THEN conjunct1] N[THEN conjunct2] using F D by auto
qed

theorem download_file_retry_policy_witness:
  "name stem0 \<noteq> []
   \<and> outcome_at env_tls ''https://h/a'' world0 0 = Some (SSLError ''tls'')
   \<and> outcome_at env_tls ''https://h/a'' world0 1 = Some (SSLError ''tls'')
   \<and> outcome_at env_tls ''https://h/a'' world0 2 = Some (SSLError ''tls'')
   \<and> fst (download_file env_tls (Some ''https://h/a'') stem0 ''video'' world0)
       = Inl (SSLError ''tls'')
   \<and> nreq (snd (download_file env_tls (Some ''https://h/a'') stem0 ''video'' world0)) = 3
   \<and> sleeps (log (snd (download_file env_tls (Some ''https://h/a'') stem0 ''video'' world0)))
       = [60, 60]
   \<and> outcome_at env_404 ''https://h/a'' world0 0 = Some (HTTPError ''HTTPError'')
   \<and> fst (download_file env_404 (Some ''https://h/a'') stem0 ''video'' world0)
       = Inl (HTTPError ''HTTPError'')
   \<and> nreq (snd (download_file env_404 (Some ''https://h/a'') stem0 ''video'' world0)) = 1
   \<and> sleeps (log (snd (download_file env_404 (Some ''https://h/a'') stem0 ''video'' world0)))
       = []"
proof -
  have n: "name stem0 \<noteq> []" by (simp add: stem0_def)
  have t: "outcome_at env_tls ''https://h/a'' world0 k = Some (SSLError ''tls'')" for k
    by (simp add: outcome_at_def env_tls_def env0_def)
  have h: "outcome_at env_404 ''https://h/a'' world0 0 = Some (HTTPError ''HTTPError'')"
    by (simp add: outcome_at_def env_404_def env0_def raise_for_status_def)
  have z: "nreq world0 = 0" "sleeps (log world0) = []" by (simp_all add: world0_def)
  note T = download_file_retry_policy[OF n, of world0 env_tls "''https://h/a''" "''video''"]
  note H = download_file_retry_policy[OF n, of world0 env_404 "''https://h/a''" "''video''"]
  have T3: "fst (download_file env_tls (Some ''https://h/a'') stem0 ''video'' world0)
              = Inl (SSLError ''tls'')
            \<and> nreq (snd (download_file env_tls (Some ''https://h/a'') stem0 ''video'' world0)) = 3"
    using T t[of 0] t[of 1] t[of 2] z by auto
  have H1: "fst (download_file env_404 (Some ''https://h/a'') stem0 ''video'' world0)
              = Inl (HTTPError ''HTTPError'')
            \<and> nreq (snd (download_file env_404 (Some ''https://h/a'') stem0 ''video'' world0)) = 1"
    using H h z by auto
  have Ts: "sleeps (log (snd (download_file env_tls (Some ''https://h/a'') stem0 ''video'' world0)))
              = [60, 60]"
    using T T3 z by (simp add: numeral_2_eq_2)
  have Hs: "sleeps (log (snd (download_file env_404 (Some ''https://h/a'') stem0 ''video'' world0)))
              = []"
    using H H1 z by simp
  show ?thesis using n t h T3 H1 Ts Hs by simp
qed


lemma attempt_once_files:
  "attempt_once E url tmp w = (r, w1) \<Longrightarrow>
     (\<forall>p. p \<noteq> tmp \<longrightarrow> files w1 p = files w p)
     \<and> (\<exists>evs. log w1 = log w @ evs \<and> replaces evs = [])
     \<and> nreq w1 = Suc (nreq w)
     \<and> (\<forall>ct. r = Inr ct \<longrightarrow>
           (\<exists>u st chunks. url = Some u \<and> requests_get E (nreq w) u = Response st ct chunks None
              \<and> raise_for_status st = None
              \<and> files w1 tmp = Some (Bytes (concat chunks))))"
  by (auto simp: attempt_once_def Let_def emit_def open_write_def write_chunks_nreq
        write_chunks_log replaces_append replaces_map_WriteChunk write_chunks_files
      split: http_result.splits option.splits)

lemma attempts_files:
  "attempts E url tmp l w = (r, w') \<Longrightarrow>
     (\<forall>p. p \<noteq> tmp \<longrightarrow> files w' p = files w p)
     \<and> (\<exists>evs. log w' = log w @ evs \<and> replaces evs = [])
     \<and> (\<forall>ct. r = Inr ct \<longrightarrow>
           (\<exists>u st chunks. url = Some u
              \<and> requests_get E (nreq w' - 1) u = Response st ct chunks None
              \<and> raise_for_status st = None
              \<and> files w' tmp = Some (Bytes (concat chunks))))"
proof (induction l arbitrary: w)
  case Nil
  then show ?case by auto
next
  case (Cons a l)
  obtain r1 w1 where a1: "attempt_once E url tmp w = (r1, w1)"
    by (cases "attempt_once E url tmp w")
  note f = attempt_once_files[OF a1]
  show ?case
  proof (cases "\<exists>e. r1 = Inl e \<and> is_SSLError e \<and> a \<noteq> max_retries")
    case True
    then have rec: "attempts E url tmp l (emit (Sleep 60) w1) = (r, w')"
      using Cons.prems a1 by auto
    from Cons.IH[OF rec] f show ?thesis
      by (auto simp: emit_def replaces_append)
  next
    case False
    then have "(r, w') = (r1, w1)"
      using Cons.prems a1 by (auto split: sum.splits if_splits)
    with f show ?thesis by auto
  qed
qed

lemma download_file_effects:
  assumes "with_suffix out_stem ''.download'' = Inr tmp"
  shows "(fst (download_file E url out_stem kn w) = Inr (final, ct) \<longrightarrow>
            (\<exists>u st chunks. url = Some u
               \<and> requests_get E (nreq (snd (download_file E url out_stem kn w)) - 1) u
                   = Response st ct chunks None
               \<and> raise_for_status st = None
               \<and> files (snd (download_file E url out_stem kn w)) final
                   = Some (Bytes (concat chunks)))
            \<and> (\<exists>evs. log (snd (download_file E url out_stem kn w))
                        = log w @ evs @ [Replace tmp final]
                    \<and> replaces evs = [])
            \<and> (final \<noteq> tmp \<longrightarrow> files (snd (download_file E url out_stem kn w)) tmp = None)
            \<and> (\<forall>p. p \<noteq> tmp \<and> p \<noteq> final
                   \<longrightarrow> files (snd (download_file E url out_stem kn w)) p = files w p))
       \<and> ((\<exists>e. fst (download_file E url out_stem kn w) = Inl e) \<longrightarrow>
            replaces (log (snd (download_file E url out_stem kn w))) = replaces (log w)
            \<and> (\<forall>p. p \<noteq> tmp
                   \<longrightarrow> files (snd (download_file E url out_stem kn w)) p = files w p)
            \<and> (\<forall>p. p \<noteq> tmp \<and> files w p = None
                   \<longrightarrow> files (snd (download_file E url out_stem kn w)) p = None))"
proof -
  define w0 where "w0 = emit (Mkdir (parent out_stem)) w"
  have w0: "files w0 = files w" "log w0 = log w @ [Mkdir (parent out_stem)]"
    by (simp_all add: w0_def emit_def)
  obtain r w1 where A: "attempts E url tmp [Suc 0, 2, 3] w0 = (r, w1)"
    by (cases "attempts E url tmp [Suc 0, 2, 3] w0")
  note F = attempts_files[OF A, unfolded w0]
  from F obtain evs where evs: "log w1 = (log w @ [Mkdir (parent out_stem)]) @ evs" "replaces evs = []"
    by (elim conjE exE) (rule that)
  have U: "download_file E url out_stem kn w =
           (case r of
              Inl e \<Rightarrow> (Inl e, w1)
            | Inr content_type \<Rightarrow>
                (case (if guess_ext E (case url of Some u \<Rightarrow> u | None \<Rightarrow> []) content_type = []
                          \<and> kn = ''image''
                       then with_suffix out_stem ''.jpg''
                       else with_suffix out_stem
                              (guess_ext E (case url of Some u \<Rightarrow> u | None \<Rightarrow> []) content_type)) of
                   Inl e \<Rightarrow> (Inl e, w1)
                 | Inr final_path \<Rightarrow>
                     (case os_replace tmp final_path w1 of
                        (Inl e, w2) \<Rightarrow> (Inl e, w2)
                      | (Inr u, w2) \<Rightarrow> (Inr (final_path, content_type), w2))))"
    unfolding download_file_def upt_1_4 Let_def w0_def[symmetric] assms
    by (simp add: A del: attempts.simps split: sum.splits)
  show ?thesis
  proof (cases r)
    case (Inl e)
    then show ?thesis using U F evs by (auto simp: replaces_append)
  next
    case (Inr c)
    with F obtain u st chunks where R: "url = Some u"
        "requests_get E (nreq w1 - 1) u = Response st c chunks None"
        "raise_for_status st = None" "files w1 tmp = Some (Bytes (concat chunks))"
      by blast
    show ?thesis
    proof (cases "if guess_ext E u c = [] \<and> kn = ''image''
                  then with_suffix out_stem ''.jpg''
                  else with_suffix out_stem (guess_ext E u c)")
      case (Inl e)
      then show ?thesis using U Inr R F evs by (auto simp: replaces_append)
    next
      case fp: (Inr final_path)
      have D: "download_file E url out_stem kn w =
                 (Inr (final_path, c),
                  emit (Replace tmp final_path)
                    (w1\<lparr>files := ((files w1)(tmp := None))(final_path \<mapsto> Bytes (concat chunks))\<rparr>))"
        using U Inr R fp by (auto simp: os_replace_def split: if_splits)
      show ?thesis
        unfolding D using R F evs by (auto simp: emit_def replaces_append)
    qed
  qed
qed

text \<open>
  C2. When \<open>download_file\<close> returns a final path, the answer to its last request was
  read to the end without an exception, the file at the final path holds the whole body
  (all the chunks of that answer, in order), the rename of the temporary file
  \<open>out_stem.with_suffix(".download")\<close> to the final path is the one rename made and
  the last thing done, the temporary file is gone, and no other file has changed. When
  \<open>download_file\<close> raises, no rename was made and every path other than the temporary
  one holds what it held before: a path that held no file holds none, so nothing partial
  is ever at a final path.
\<close>

theorem download_file_atomic:
  "(fst (download_file E url out_stem kn w) = Inr (final, ct) \<longrightarrow>
      (\<exists>tmp. with_suffix out_stem ''.download'' = Inr tmp
         \<and> (\<exists>u st chunks. url = Some u
               \<and> requests_get E (nreq (snd (download_file E url out_stem kn w)) - 1) u
                   = Response st ct chunks None
               \<and> raise_for_status st = None
               \<and> files (snd (download_file E url out_stem kn w)) final
                   = Some (Bytes (concat chunks)))
         \<and> (\<exists>evs. log (snd (download_file E url out_stem kn w))
                     = log w @ evs @ [Replace tmp final]
                 \<and> replaces evs = [])
         \<and> (final \<noteq> tmp \<longrightarrow> files (snd (download_file E url out_stem kn w)) tmp = None)
         \<and> (\<forall>p. p \<noteq> tmp \<and> p \<noteq> final
                \<longrightarrow> files (snd (download_file E url out_stem kn w)) p = files w p)))
   \<and> ((\<exists>e. fst (download_file E url out_stem kn w) = Inl e) \<longrightarrow>
         replaces (log (snd (download_file E url out_stem kn w))) = replaces (log w)
         \<and> (\<forall>p. with_suffix out_stem ''.download'' \<noteq> Inr p
                \<longrightarrow> files (snd (download_file E url out_stem kn w)) p = files w p)
         \<and> (\<forall>p. with_suffix out_stem ''.download'' \<noteq> Inr p \<and> files w p = None
                \<longrightarrow> files (snd (download_file E url out_stem kn w)) p = None))"
proof (cases "with_suffix out_stem ''.download''")
  case (Inl e)
  then have "download_file E url out_stem kn w = (Inl e, emit (Mkdir (parent out_stem)) w)"
    by (simp add: download_file_def Let_def)
  then show ?thesis by (simp add: emit_def replaces_append)
next
  case (Inr tmp)
  note F = download_file_effects[OF Inr, of E url kn w final ct]
  have a: "fst (download_file E url out_stem kn w) = Inr (final, ct) \<longrightarrow>
      (\<exists>tmp. with_suffix out_stem ''.download'' = Inr tmp
         \<and> (\<exists>u st chunks. url = Some u
               \<and> requests_get E (nreq (snd (download_file E url out_stem kn w)) - 1) u
                   = Response st ct chunks None
               \<and> raise_for_status st = None
               \<and> files (snd (download_file E url out_stem kn w)) final
                   = Some (Bytes (concat chunks)))
         \<and> (\<exists>evs. log (snd (download_file E url out_stem kn w))
                     = log w @ evs @ [Replace tmp final]
                 \<and> replaces evs = [])
         \<and> (final \<noteq> tmp \<longrightarrow> files (snd (download_file E url out_stem kn w)) tmp = None)
         \<and> (\<forall>p. p \<noteq> tmp \<and> p \<noteq> final
                \<longrightarrow> files (snd (download_file E url out_stem kn w)) p = files w p))"
  proof
    assume h: "fst (download_file E url out_stem kn w) = Inr (final, ct)"
    show "\<exists>tmp. with_suffix out_stem ''.download'' = Inr tmp
         \<and> (\<exists>u st chunks. url = Some u
               \<and> requests_get E (nreq (snd (download_file E url out_stem kn w)) - 1) u
                   = Response st ct chunks None
               \<and> raise_for_status st = None
               \<and> files (snd (download_file E url out_stem kn w)) final
                   = Some (Bytes (concat chunks)))
         \<and> (\<exists>evs. log (snd (download_file E url out_stem kn w))
                     = log w @ evs @ [Replace tmp final]
                 \<and> replaces evs = [])
         \<and> (final \<noteq> tmp \<longrightarrow> files (snd (download_file E url out_stem kn w)) tmp = None)
         \<and> (\<forall>p. p \<noteq> tmp \<and> p \<noteq> final
                \<longrightarrow> files (snd (download_file E url out_stem kn w)) p = files w p)"
      by (rule exI[of _ tmp], rule conjI[OF Inr], rule F[THEN conjunct1, THEN mp, OF h])
  qed
  have b: "(\<exists>e. fst (download_file E url out_stem kn w) = Inl e) \<longrightarrow>
         replaces (log (snd (download_file E url out_stem kn w))) = replaces (log w)
         \<and> (\<forall>p. with_suffix out_stem ''.download'' \<noteq> Inr p
                \<longrightarrow> files (snd (download_file E url out_stem kn w)) p = files w p)
         \<and> (\<forall>p. with_suffix out_stem ''.download'' \<noteq> Inr p \<and> files w p = None
                \<longrightarrow> files (snd (download_file E url out_stem kn w)) p = None)"
    using F[THEN conjunct2] unfolding Inr by auto
  show ?thesis by (rule conjI[OF a b])
qed

theorem download_file_atomic_witness:
  "fst (download_file env0 (Some ''https://h/a'') stem0 ''image'' world0)
       = Inr (Path ''out'' ''3_2025-11-12T210503Z.jpg'', None)
   \<and> with_suffix stem0 ''.download'' = Inr (Path ''out'' ''3_2025-11-12T210503Z.download'')
   \<and> files (snd (download_file env0 (Some ''https://h/a'') stem0 ''image'' world0))
        (Path ''out'' ''3_2025-11-12T210503Z.jpg'') = Some (Bytes ''abcd'')
   \<and> files (snd (download_file env0 (Some ''https://h/a'') stem0 ''image'' world0))
        (Path ''out'' ''3_2025-11-12T210503Z.download'') = None
   \<and> (\<exists>e. fst (download_file env_404 (Some ''https://h/a'') stem0 ''image'' world0) = Inl e)
   \<and> with_suffix stem0 ''.download'' \<noteq> Inr (Path ''out'' ''3_2025-11-12T210503Z.jpg'')
   \<and> files world0 (Path ''out'' ''3_2025-11-12T210503Z.jpg'') = None
   \<and> files (snd (download_file env_404 (Some ''https://h/a'') stem0 ''image'' world0))
        (Path ''out'' ''3_2025-11-12T210503Z.jpg'') = None
   \<and> replaces (log (snd (download_file env_404 (Some ''https://h/a'') stem0 ''image'' world0)))
       = []"
proof -
  have t: "with_suffix stem0 ''.download'' = Inr (Path ''out'' ''3_2025-11-12T210503Z.download'')"
    by code_simp
  have ok: "fst (download_file env0 (Some ''https://h/a'') stem0 ''image'' world0)
              = Inr (Path ''out'' ''3_2025-11-12T210503Z.jpg'', None)"
    by code_simp
  have c: "files (snd (download_file env0 (Some ''https://h/a'') stem0 ''image'' world0))
             (Path ''out'' ''3_2025-11-12T210503Z.jpg'') = Some (Bytes ''abcd'')"
    by code_simp
  have bad: "fst (download_file env_404 (Some ''https://h/a'') stem0 ''image'' world0)
               = Inl (HTTPError ''HTTPError'')"
    by code_simp
  have z: "files world0 (Path ''out'' ''3_2025-11-12T210503Z.jpg'') = None"
          "replaces (log world0) = []"
    by (simp_all add: world0_def)
  have ne: "with_suffix stem0 ''.download'' \<noteq> Inr (Path ''out'' ''3_2025-11-12T210503Z.jpg'')"
    unfolding t by simp
  have ex: "\<exists>e. fst (download_file env_404 (Some ''https://h/a'') stem0 ''image'' world0) = Inl e"
    using bad by (rule exI)
  from download_file_atomic[of env0 "Some ''https://h/a''" stem0 "''image''" world0
         "Path ''out'' ''3_2025-11-12T210503Z.jpg''" None, THEN conjunct1, THEN mp, OF ok]
  obtain tmp where tmp: "with_suffix stem0 ''.download'' = Inr tmp"
      "Path ''out'' ''3_2025-11-12T210503Z.jpg'' \<noteq> tmp \<longrightarrow>
         files (snd (download_file env0 (Some ''https://h/a'') stem0 ''image'' world0)) tmp = None"
    by blast
  from tmp(1) t have e: "tmp = Path ''out'' ''3_2025-11-12T210503Z.download''" by simp
  have g: "files (snd (download_file env0 (Some ''https://h/a'') stem0 ''image'' world0))
             (Path ''out'' ''3_2025-11-12T210503Z.download'') = None"
    using tmp(2) unfolding e by simp
  note B = download_file_atomic[of env_404 "Some ''https://h/a''" stem0 "''image''" world0,
             THEN conjunct2, THEN mp, OF ex]
  have b1: "files (snd (download_file env_404 (Some ''https://h/a'') stem0 ''image'' world0))
              (Path ''out'' ''3_2025-11-12T210503Z.jpg'') = None"
    by (rule B[THEN conjunct2, THEN conjunct2, THEN spec, THEN mp, OF conjI, OF ne z(1)])
  have b2: "replaces (log (snd (download_file env_404 (Some ''https://h/a'') stem0 ''image'' world0)))
              = []"
    using B[THEN conjunct1] z(2) by (rule trans)
  show ?thesis by (intro conjI ok t c g ex ne z(1) b1 b2)
qed

section \<open>Properties of guess\_ext\<close>

lemma download_file_final:
  assumes "fst (download_file E (Some u) out_stem kn w) = Inr (final, ct)"
  shows "(if guess_ext E u ct = [] \<and> kn = ''image''
          then with_suffix out_stem ''.jpg''
          else with_suffix out_stem (guess_ext E u ct)) = Inr final"
proof (cases "with_suffix out_stem ''.download''")
  case (Inl e)
  then show ?thesis using assms by (simp add: download_file_def Let_def)
next
  case (Inr tmp)
  obtain r w1 where A:
    "attempts E (Some u) tmp [Suc 0, 2, 3] (emit (Mkdir (parent out_stem)) w) = (r, w1)"
    by (cases "attempts E (Some u) tmp [Suc 0, 2, 3] (emit (Mkdir (parent out_stem)) w)")
  show ?thesis
    using assms unfolding download_file_def upt_1_4 Let_def Inr
    by (auto simp add: A simp del: attempts.simps split: sum.splits prod.splits if_splits)
qed

lemma with_suffix_Inr_name: "with_suffix p suf = Inr q \<Longrightarrow> name p \<noteq> []"
  by (auto simp: with_suffix_def split: if_splits)

text \<open>
  C7. \<open>guess_ext\<close> resolves the extension in this order: a declared content-type
  whose media type is \<open>video/mp4\<close> gives \<open>.mp4\<close> and one whose media type is
  \<open>image/jpeg\<close> gives \<open>.jpg\<close>; any other declared content-type that the MIME table
  maps to an extension gives that extension; otherwise (no content-type, an empty one,
  or one the table does not map) the result is the suffix of the URL's path, which is
  empty when the path has none. In \<open>download_file\<close>, when the extension is empty and
  the kind is \<open>image\<close> the final path is the stem with the suffix \<open>.jpg\<close>; when it
  is empty and the kind is not \<open>image\<close> the final path is the stem with no suffix
  added: the stem itself, extensionless, when the stem has no extension.
\<close>

theorem guess_ext_priority:
  "(ct_media_type c = ''video/mp4'' \<longrightarrow> guess_ext E url (Some c) = ''.mp4'')
   \<and> (ct_media_type c = ''image/jpeg'' \<longrightarrow> guess_ext E url (Some c) = ''.jpg'')
   \<and> (c \<noteq> [] \<and> ct_media_type c \<noteq> ''video/mp4'' \<and> ct_media_type c \<noteq> ''image/jpeg''
        \<and> mimetypes_guess_extension E (ct_media_type c) = Some e \<and> e \<noteq> []
        \<longrightarrow> guess_ext E url (Some c) = e)
   \<and> ((content_type = None \<or> content_type = Some []
         \<or> (\<exists>c'. content_type = Some c'
               \<and> ct_media_type c' \<noteq> ''video/mp4'' \<and> ct_media_type c' \<noteq> ''image/jpeg''
               \<and> (mimetypes_guess_extension E (ct_media_type c') = None
                    \<or> mimetypes_guess_extension E (ct_media_type c') = Some [])))
        \<longrightarrow> guess_ext E url content_type = url_path_suffix E url)
   \<and> (fst (download_file E (Some u) out_stem kn w) = Inr (final, ct)
        \<and> guess_ext E u ct = [] \<and> kn = ''image''
        \<longrightarrow> with_suffix out_stem ''.jpg'' = Inr final \<and> suffix final = ''.jpg'')
   \<and> (fst (download_file E (Some u) out_stem kn w) = Inr (final, ct)
        \<and> guess_ext E u ct = [] \<and> kn \<noteq> ''image''
        \<longrightarrow> with_suffix out_stem [] = Inr final
            \<and> (suffix out_stem = [] \<longrightarrow> final = out_stem \<and> suffix final = []))"
proof (intro conjI impI)
  assume "ct_media_type c = ''video/mp4''"
  moreover from this have "c \<noteq> []" using ct_media_type_Nil by auto
  ultimately show "guess_ext E url (Some c) = ''.mp4''"
    by (simp add: guess_ext_def Let_def)
next
  assume "ct_media_type c = ''image/jpeg''"
  moreover from this have "c \<noteq> []" using ct_media_type_Nil by auto
  ultimately show "guess_ext E url (Some c) = ''.jpg''"
    by (simp add: guess_ext_def Let_def)
next
  assume "c \<noteq> [] \<and> ct_media_type c \<noteq> ''video/mp4'' \<and> ct_media_type c \<noteq> ''image/jpeg''
        \<and> mimetypes_guess_extension E (ct_media_type c) = Some e \<and> e \<noteq> []"
  then show "guess_ext E url (Some c) = e"
    by (simp add: guess_ext_def Let_def)
next
  assume "content_type = None \<or> content_type = Some []
         \<or> (\<exists>c'. content_type = Some c'
               \<and> ct_media_type c' \<noteq> ''video/mp4'' \<and> ct_media_type c' \<noteq> ''image/jpeg''
               \<and> (mimetypes_guess_extension E (ct_media_type c') = None
                    \<or> mimetypes_guess_extension E (ct_media_type c') = Some []))"
  then show "guess_ext E url content_type = url_path_suffix E url"
    by (auto simp add: guess_ext_def Let_def)
next
  assume h: "fst (download_file E (Some u) out_stem kn w) = Inr (final, ct)
        \<and> guess_ext E u ct = [] \<and> kn = ''image''"
  then have f: "with_suffix out_stem ''.jpg'' = Inr final"
    using download_file_final[of E u out_stem kn w final ct] by auto
  then show "with_suffix out_stem ''.jpg'' = Inr final" .
  from f have "name out_stem \<noteq> []" by (rule with_suffix_Inr_name)
  from with_suffix_jpg[OF this] f show "suffix final = ''.jpg''" by auto
next
  assume h: "fst (download_file E (Some u) out_stem kn w) = Inr (final, ct)
        \<and> guess_ext E u ct = [] \<and> kn \<noteq> ''image''"
  then show f: "with_suffix out_stem [] = Inr final"
    using download_file_final[of E u out_stem kn w final ct] by auto
  assume s: "suffix out_stem = []"
  from f have "name out_stem \<noteq> []" by (rule with_suffix_Inr_name)
  from with_suffix_empty[OF this s] f have e: "final = out_stem" by simp
  then show "final = out_stem" .
  from e s show "suffix final = []" by simp
qed

theorem guess_ext_priority_witness:
  "ct_media_type ''Video/MP4; codecs=avc1'' = ''video/mp4''
   \<and> guess_ext env_png ''https://h/a.bin'' (Some ''Video/MP4; codecs=avc1'') = ''.mp4''
   \<and> ct_media_type ''image/jpeg'' = ''image/jpeg''
   \<and> guess_ext env_png ''https://h/a.bin'' (Some ''image/jpeg'') = ''.jpg''
   \<and> mimetypes_guess_extension env_png (ct_media_type ''image/png'') = Some ''.png''
   \<and> guess_ext env_png ''https://h/a.bin'' (Some ''image/png'') = ''.png''
   \<and> guess_ext env_png ''https://h/a.bin'' None = url_path_suffix env_png ''https://h/a.bin''
   \<and> fst (download_file env0 (Some ''https://h/a'') stem0 ''image'' world0)
       = Inr (Path ''out'' ''3_2025-11-12T210503Z.jpg'', None)
   \<and> guess_ext env0 ''https://h/a'' None = []
   \<and> suffix (Path ''out'' ''3_2025-11-12T210503Z.jpg'') = ''.jpg''
   \<and> fst (download_file env0 (Some ''https://h/a'') stem0 ''video'' world0) = Inr (stem0, None)
   \<and> suffix stem0 = []"
proof -
  have m: "ct_media_type ''Video/MP4; codecs=avc1'' = ''video/mp4''" by code_simp
  have j: "ct_media_type ''image/jpeg'' = ''image/jpeg''" by code_simp
  have p: "''image/png'' \<noteq> [] \<and> ct_media_type ''image/png'' \<noteq> ''video/mp4''
           \<and> ct_media_type ''image/png'' \<noteq> ''image/jpeg''
           \<and> mimetypes_guess_extension env_png (ct_media_type ''image/png'') = Some ''.png''
           \<and> ''.png'' \<noteq> []"
    by code_simp
  have di: "fst (download_file env0 (Some ''https://h/a'') stem0 ''image'' world0)
              = Inr (Path ''out'' ''3_2025-11-12T210503Z.jpg'', None)
            \<and> guess_ext env0 ''https://h/a'' None = [] \<and> ''image'' = ''image''"
    by code_simp
  have dv: "fst (download_file env0 (Some ''https://h/a'') stem0 ''video'' world0) = Inr (stem0, None)
            \<and> guess_ext env0 ''https://h/a'' None = [] \<and> ''video'' \<noteq> ''image''"
    by code_simp
  have s0: "suffix stem0 = []" by code_simp
  note G = guess_ext_priority[of _ env_png "''https://h/a.bin''"]
  have g1: "guess_ext env_png ''https://h/a.bin'' (Some ''Video/MP4; codecs=avc1'') = ''.mp4''"
    by (rule G[THEN conjunct1, THEN mp, OF m])
  have g2: "guess_ext env_png ''https://h/a.bin'' (Some ''image/jpeg'') = ''.jpg''"
    by (rule G[THEN conjunct2, THEN conjunct1, THEN mp, OF j])
  have g3: "guess_ext env_png ''https://h/a.bin'' (Some ''image/png'') = ''.png''"
    by (rule G[THEN conjunct2, THEN conjunct2, THEN conjunct1, THEN mp, OF p])
  have g4: "guess_ext env_png ''https://h/a.bin'' None = url_path_suffix env_png ''https://h/a.bin''"
    by (rule G[THEN conjunct2, THEN conjunct2, THEN conjunct2, THEN conjunct1, THEN mp,
               OF disjI1, OF refl])
  have g5: "suffix (Path ''out'' ''3_2025-11-12T210503Z.jpg'') = ''.jpg''"
    by (rule guess_ext_priority[THEN conjunct2, THEN conjunct2, THEN conjunct2, THEN conjunct2,
               THEN conjunct1, THEN mp, OF di, THEN conjunct2])
  have g6: "with_suffix stem0 [] = Inr stem0"
    by (rule guess_ext_priority[THEN conjunct2, THEN conjunct2, THEN conjunct2, THEN conjunct2,
               THEN conjunct2, THEN mp, OF dv, THEN conjunct1])
  show ?thesis
    by (intro conjI m g1 j g2 p[THEN conjunct2, THEN conjunct2, THEN conjunct2, THEN conjunct1]
          g3 g4 di[THEN conjunct1] di[THEN conjunct2, THEN conjunct1] g5 dv[THEN conjunct1] s0)
qed


section \<open>Properties of the main loop: rows and fetch failures\<close>

lemma parse_iso8601_utc_Inr:
  "parse_iso8601_utc d = Inr iso_text \<Longrightarrow>
     \<exists>dt. strptime_utc (py_strip d) = Inr dt \<and> iso_text = isoformat_z dt"
  by (auto simp: parse_iso8601_utc_def split: sum.splits)

lemma parse_iso8601_utc_Inl:
  "parse_iso8601_utc d = Inl e \<Longrightarrow> \<exists>m. e = ValueError m"
  by (auto simp: parse_iso8601_utc_def strptime_utc_def split: sum.splits list.splits if_splits)

lemma process_row_short:
  "length (tds r) < 4 \<Longrightarrow> process_row E cfg i r w = (None, w)"
  by (simp add: process_row_def)

lemma process_row_bad_date:
  "4 \<le> length (tds r) \<Longrightarrow> starting_index cfg \<le> int i \<Longrightarrow> parse_iso8601_utc (tds r ! 0) = Inl e
     \<Longrightarrow> process_row E cfg i r w = (Some e, w)"
  by (simp add: process_row_def Let_def)

lemma process_row_fetch_failed:
  assumes "4 \<le> length (tds r)" "starting_index cfg \<le> int i"
    and "parse_iso8601_utc (tds r ! 0) = Inr iso_text"
    and "fst (fetch E cfg i r iso_text w) = Inl e"
  shows "process_row E cfg i r w =
           (if is_HTTPError e
            then (None, add_line_to_file (not_saved_path cfg) (not_saved_line i r)
                          (snd (fetch E cfg i r iso_text w)))
            else (Some e, snd (fetch E cfg i r iso_text w)))"
proof -
  obtain dt where dt: "strptime_utc (py_strip (tds r ! 0)) = Inr dt"
    using parse_iso8601_utc_Inr[OF assms(3)] by blast
  obtain w1 where f: "fetch E cfg i r iso_text w = (Inl e, w1)"
    using assms(4) by (cases "fetch E cfg i r iso_text w") auto
  have f': "download_file E (extract_download_url E r)
              (Path (out_dir cfg)
                 (safe_filename (filter (\<lambda>c. c \<noteq> CHR '':'') (str_nat i @ ''_'' @ iso_text))))
              (py_lower (py_strip (tds r ! 1))) w = (Inl e, w1)"
    using f by (simp only: fetch_def out_stem_of_def)
  have g: "\<not> length (tds r) < 4" "\<not> int i < starting_index cfg"
    using assms(1,2) by simp_all
  have "process_row E cfg i r w =
          (if is_HTTPError e
           then (None, add_line_to_file (Path (out_dir cfg) ''not_saved.txt'')
                         (str_nat i @ ''_'' @ tds r ! 1 @ '' '' @ tds r ! 0) w1)
           else (Some e, w1))"
    unfolding process_row_def Let_def
    by (simp only: g if_False assms(3) dt sum.case f' prod.case)
  then show ?thesis
    by (simp only: f snd_conv not_saved_path_def not_saved_line_def)
qed

lemma tmp_not_ledger:
  "with_suffix p ''.download'' = Inr tmp \<Longrightarrow> tmp \<noteq> not_saved_path cfg"
proof
  assume a: "with_suffix p ''.download'' = Inr tmp" and b: "tmp = not_saved_path cfg"
  from a obtain s where "name tmp = s @ ''.download''"
    by (auto simp: with_suffix_def Let_def split: if_splits)
  then have "last (name tmp) = CHR ''d''" by simp
  moreover have "last (name tmp) = CHR ''t''" by (simp add: b not_saved_path_def)
  ultimately show False by simp
qed

lemma download_file_no_tmp:
  "with_suffix out_stem ''.download'' = Inl e \<Longrightarrow>
     files (snd (download_file E url out_stem kn w)) = files w"
  by (simp add: download_file_def Let_def emit_def)

lemma fetch_failed_ledger:
  assumes "fst (fetch E cfg i r iso_text w) = Inl e"
  shows "files (snd (fetch E cfg i r iso_text w)) (not_saved_path cfg) = files w (not_saved_path cfg)"
proof (cases "with_suffix (out_stem_of cfg i iso_text) ''.download''")
  case (Inl e')
  then show ?thesis by (simp add: fetch_def download_file_no_tmp)
next
  case (Inr tmp)
  have "not_saved_path cfg \<noteq> tmp" using tmp_not_ledger[OF Inr] by auto
  with download_file_effects[OF Inr, of E "extract_download_url E r"
         "py_lower (py_strip (tds r ! 1))" w] assms
  show ?thesis unfolding fetch_def by blast
qed

text \<open>
  C4. Let a row with at least four cells, at or after the starting index and with a
  timestamp that parses, have its fetch fail with the exception \<open>e\<close>. When \<open>e\<close> is an
  \<open>HTTPError\<close>, the iteration ends without an exception and the loop goes on with the
  next row; the ledger \<open>not_saved.txt\<close> then holds what it held before the row
  (nothing, when it did not exist) followed by the one line
  \<open>{index}_{kind} {rawDateString}\<close> and a newline, and no file but the ledger differs
  from what the fetch left. When \<open>e\<close> is an \<open>SSLError\<close> (the retries of
  \<open>download_file\<close> are exhausted), the exception leaves the loop: the run ends with it
  and the rows after are not processed.
\<close>

theorem http_error_ledger_tls_halts:
  assumes "4 \<le> length (tds r)" and "starting_index cfg \<le> int i"
    and "parse_iso8601_utc (tds r ! 0) = Inr iso_text"
    and "fst (fetch E cfg i r iso_text w) = Inl e"
  shows "(is_HTTPError e \<longrightarrow>
            fst (process_row E cfg i r w) = None
            \<and> main_loop E cfg i (r # rows) w
                = main_loop E cfg (Suc i) rows (snd (process_row E cfg i r w))
            \<and> (files w (not_saved_path cfg) = None \<longrightarrow>
                  files (snd (process_row E cfg i r w)) (not_saved_path cfg)
                    = Some (Bytes (str_nat i @ ''_'' @ tds r ! 1 @ '' '' @ tds r ! 0 @ [CHR 0x0A])))
            \<and> (\<forall>old. files w (not_saved_path cfg) = Some (Bytes old) \<longrightarrow>
                  files (snd (process_row E cfg i r w)) (not_saved_path cfg)
                    = Some (Bytes (old @ str_nat i @ ''_'' @ tds r ! 1 @ '' '' @ tds r ! 0
                                   @ [CHR 0x0A])))
            \<and> (\<forall>p. p \<noteq> not_saved_path cfg
                   \<longrightarrow> files (snd (process_row E cfg i r w)) p
                       = files (snd (fetch E cfg i r iso_text w)) p))
       \<and> (is_SSLError e \<longrightarrow>
            main_loop E cfg i (r # rows) w = (Some e, snd (fetch E cfg i r iso_text w)))"
proof -
  note P = process_row_fetch_failed[OF assms]
  note L = fetch_failed_ledger[OF assms(4)]
  have s: "is_SSLError e \<Longrightarrow> \<not> is_HTTPError e" by (cases e) auto
  show ?thesis
    using L s by (auto simp: P add_line_to_file_def emit_def not_saved_line_def)
qed

theorem http_error_ledger_tls_halts_witness:
  "4 \<le> length (tds row_video) \<and> starting_index cfg0 \<le> int 1
   \<and> parse_iso8601_utc (tds row_video ! 0) = Inr ''2025-11-12T21:05:03Z''
   \<and> fst (fetch env_404 cfg0 1 row_video ''2025-11-12T21:05:03Z''
             (world0\<lparr>files := [not_saved_path cfg0 \<mapsto> Bytes ''old'']\<rparr>))
       = Inl (HTTPError ''HTTPError'')
   \<and> files (snd (process_row env_404 cfg0 1 row_video
                    (world0\<lparr>files := [not_saved_path cfg0 \<mapsto> Bytes ''old'']\<rparr>)))
        (not_saved_path cfg0)
       = Some (Bytes (''old'' @ ''1_Video 2025-11-12 21:05:03 UTC'' @ [CHR 0x0A]))
   \<and> fst (main_loop env_404 cfg0 1 [row_video, row_image]
             (world0\<lparr>files := [not_saved_path cfg0 \<mapsto> Bytes ''old'']\<rparr>)) = None
   \<and> fst (fetch env_tls cfg0 1 row_video ''2025-11-12T21:05:03Z'' world0)
       = Inl (SSLError ''tls'')
   \<and> fst (main_loop env_tls cfg0 1 [row_video, row_image] world0) = Some (SSLError ''tls'')"
proof -
  define wl where "wl = world0\<lparr>files := [not_saved_path cfg0 \<mapsto> Bytes ''old'']\<rparr>"
  have a: "4 \<le> length (tds row_video)" by (simp add: row_video_def)
  have b: "starting_index cfg0 \<le> int 1" by (simp add: cfg0_def)
  have c: "parse_iso8601_utc (tds row_video ! 0) = Inr ''2025-11-12T21:05:03Z''" by code_simp
  have d: "fst (fetch env_404 cfg0 1 row_video ''2025-11-12T21:05:03Z'' wl)
             = Inl (HTTPError ''HTTPError'')"
    unfolding wl_def by code_simp
  have d': "fst (fetch env_tls cfg0 1 row_video ''2025-11-12T21:05:03Z'' world0)
             = Inl (SSLError ''tls'')"
    by code_simp
  have m: "fst (main_loop env_404 cfg0 1 [row_video, row_image] wl) = None"
    unfolding wl_def by code_simp
  have o: "files wl (not_saved_path cfg0) = Some (Bytes ''old'')"
    by (simp add: wl_def)
  have v: "''old'' @ str_nat 1 @ ''_'' @ tds row_video ! 1 @ '' '' @ tds row_video ! 0 @ [CHR 0x0A]
             = ''old'' @ ''1_Video 2025-11-12 21:05:03 UTC'' @ [CHR 0x0A]"
    by code_simp
  have hh: "is_HTTPError (HTTPError ''HTTPError'')" and ss: "is_SSLError (SSLError ''tls'')"
    by simp_all
  note H = http_error_ledger_tls_halts[OF a b c d, THEN conjunct1, THEN mp, OF hh]
  note T = http_error_ledger_tls_halts[OF a b c d', of "[row_image]", THEN conjunct2, THEN mp,
             OF ss]
  have l: "files (snd (process_row env_404 cfg0 1 row_video wl)) (not_saved_path cfg0)
             = Some (Bytes (''old'' @ ''1_Video 2025-11-12 21:05:03 UTC'' @ [CHR 0x0A]))"
    using H[THEN conjunct2, THEN conjunct2, THEN conjunct2, THEN conjunct1, THEN spec, THEN mp, OF o]
    unfolding v .
  have t: "fst (main_loop env_tls cfg0 1 [row_video, row_image] world0) = Some (SSLError ''tls'')"
    by (simp only: T fst_conv)
  show ?thesis
    unfolding wl_def[symmetric] by (intro conjI a b c d l m d' t)
qed


text \<open>
  C3, as the code has it. A row with fewer than four cells is skipped: the iteration
  changes nothing and the loop goes on with the next row. A row with at least four
  cells, at or after the starting index, whose timestamp text the parse of
  \<open>YYYY-MM-DD HH:MM:SS UTC\<close> rejects is not skipped: the \<open>ValueError\<close> of the parse
  is caught nowhere, the run ends with it and the rows after it are not processed.
\<close>

theorem malformed_row_short_skipped_bad_date_fatal:
  "(length (tds r) < 4 \<longrightarrow>
      process_row E cfg i r w = (None, w)
      \<and> main_loop E cfg i (r # rows) w = main_loop E cfg (Suc i) rows w)
   \<and> (4 \<le> length (tds r) \<and> starting_index cfg \<le> int i
        \<and> parse_iso8601_utc (tds r ! 0) = Inl e \<longrightarrow>
      (\<exists>m. e = ValueError m) \<and> main_loop E cfg i (r # rows) w = (Some e, w))"
proof (intro conjI impI)
  assume short: "length (tds r) < 4"
  then show skip: "process_row E cfg i r w = (None, w)"
    by (rule process_row_short)
  show "main_loop E cfg i (r # rows) w = main_loop E cfg (Suc i) rows w"
    by (simp add: skip)
next
  assume bad: "4 \<le> length (tds r) \<and> starting_index cfg \<le> int i
        \<and> parse_iso8601_utc (tds r ! 0) = Inl e"
  then show "\<exists>m. e = ValueError m"
    using parse_iso8601_utc_Inl by blast
  from bad have "process_row E cfg i r w = (Some e, w)"
    by (simp add: process_row_bad_date)
  then show "main_loop E cfg i (r # rows) w = (Some e, w)"
    by simp
qed

theorem malformed_row_short_skipped_bad_date_fatal_witness:
  "length (tds row_header) < 4
   \<and> main_loop env0 cfg0 0 (row_header # [row_image]) world0
       = main_loop env0 cfg0 (Suc 0) [row_image] world0
   \<and> 4 \<le> length (tds row_bad_date) \<and> starting_index cfg0 \<le> int 1
   \<and> parse_iso8601_utc (tds row_bad_date ! 0) = Inl (ValueError ''time data does not match format'')
   \<and> main_loop env0 cfg0 1 (row_bad_date # [row_image]) world0
       = (Some (ValueError ''time data does not match format''), world0)"
proof -
  have a: "length (tds row_header) < 4" by (simp add: row_header_def)
  have b: "4 \<le> length (tds row_bad_date) \<and> starting_index cfg0 \<le> int 1
           \<and> parse_iso8601_utc (tds row_bad_date ! 0)
               = Inl (ValueError ''time data does not match format'')"
    by code_simp
  note S = malformed_row_short_skipped_bad_date_fatal
             [of row_header env0 cfg0 0 world0 "[row_image]", THEN conjunct1, THEN mp, OF a]
  note F = malformed_row_short_skipped_bad_date_fatal
             [of row_bad_date env0 cfg0 1 world0 "[row_image]"
                 "ValueError ''time data does not match format''", THEN conjunct2, THEN mp, OF b]
  show ?thesis
    by (intro conjI a S[THEN conjunct2] b[THEN conjunct1] b[THEN conjunct2, THEN conjunct1]
          b[THEN conjunct2, THEN conjunct2] F[THEN conjunct2])
qed

text \<open>
  C3 as it is stated fails: in a catalog whose second row has a first cell that is not
  a timestamp, the run ends with the \<open>ValueError\<close> at that row, nothing at all having
  been done, and the image of the row after it is never fetched; without the bad row the
  same image is fetched and stored.
\<close>

theorem bad_timestamp_row_is_fatal:
  "fst (main_loop env0 cfg0 0 [row_header, row_bad_date, row_image] world0)
     = Some (ValueError ''time data does not match format'')
   \<and> log (snd (main_loop env0 cfg0 0 [row_header, row_bad_date, row_image] world0)) = []
   \<and> files (snd (main_loop env0 cfg0 0 [row_header, row_bad_date, row_image] world0))
        (Path ''out'' ''2_2025-11-13T080000Z.jpg'') = None
   \<and> fst (main_loop env0 cfg0 0 [row_header, row_image] world0) = None
   \<and> files (snd (main_loop env0 cfg0 0 [row_header, row_image] world0))
        (Path ''out'' ''1_2025-11-13T080000Z.jpg'') = Some (Bytes ''abcd'')"
  by code_simp


section \<open>Properties of the zip branch\<close>

lemma with_suffix_dot:
  assumes n: "name p \<noteq> []" and t: "t \<noteq> []" "CHR ''.'' \<notin> set t" "CHR ''/'' \<notin> set t"
  shows "\<exists>q. with_suffix p (CHR ''.'' # t) = Inr q \<and> suffix q = CHR ''.'' # t"
proof -
  define st where
    "st = (if suffix p = [] then name p else take (length (name p) - length (suffix p)) (name p))"
  have st: "st \<noteq> []" using n name_stem_suffix[of "name p"] by (auto simp: st_def suffix_def)
  have "with_suffix p (CHR ''.'' # t) = Inr (Path (parent p) (st @ CHR ''.'' # t))"
    using with_suffix_Inr[OF n, of "CHR ''.'' # t"] t by (simp add: st_def)
  moreover have "name_suffix (st @ CHR ''.'' # t) = CHR ''.'' # t"
    by (rule name_suffix_append) (use st t in auto)
  ultimately show ?thesis by (simp add: suffix_def)
qed

lemma py_lower_zip: "py_lower ''.zip'' = ''.zip''"
  by code_simp

text \<open>
  C8. For an artifact that exists and whose suffix is not \<open>.zip\<close>, \<open>save_zip\<close>
  renames it to the same name with the suffix \<open>.zip\<close>: the archive path then holds
  exactly what the artifact held, the old path holds nothing, no other file changes and
  that rename is the only one. When the suffix passed to \<open>save_zip\<close> is \<open>.zip\<close>, as it
  is for an artifact whose suffix is \<open>.zip\<close>, nothing is renamed and nothing changes.
  In the tagging code, when \<open>is_zip\<close> answers true the zip handling is all that runs,
  whatever the kind of the item (video and image included) and whatever the
  environment: no tagger is called.
\<close>

theorem save_zip_renames_and_has_priority:
  "(files w file_path = Some c \<and> name file_path \<noteq> [] \<and> suf \<noteq> ''.zip''
      \<and> suffix file_path \<noteq> ''.zip'' \<longrightarrow>
      (\<exists>zip_path. with_suffix file_path ''.zip'' = Inr zip_path
         \<and> suffix zip_path = ''.zip'' \<and> zip_path \<noteq> file_path
         \<and> fst (save_zip file_path suf w) = Inr ()
         \<and> files (snd (save_zip file_path suf w)) zip_path = Some c
         \<and> files (snd (save_zip file_path suf w)) file_path = None
         \<and> (\<forall>p. p \<noteq> zip_path \<and> p \<noteq> file_path
                \<longrightarrow> files (snd (save_zip file_path suf w)) p = files w p)
         \<and> replaces (log (snd (save_zip file_path suf w)))
             = replaces (log w) @ [(file_path, zip_path)]))
   \<and> (suf = ''.zip'' \<longrightarrow> save_zip file_path suf w = (Inr (), w))
   \<and> (suffix file_path = ''.zip'' \<longrightarrow>
         save_zip file_path (py_lower (suffix file_path)) w = (Inr (), w))
   \<and> (fst (is_zip file_path ct w) = Inr True \<longrightarrow>
         tagging E it file_path ct suf w = save_zip file_path suf (snd (is_zip file_path ct w)))"
proof (intro conjI impI)
  assume h: "files w file_path = Some c \<and> name file_path \<noteq> [] \<and> suf \<noteq> ''.zip''
      \<and> suffix file_path \<noteq> ''.zip''"
  then obtain zp where zp: "with_suffix file_path ''.zip'' = Inr zp" "suffix zp = ''.zip''"
    using with_suffix_dot[of file_path "''zip''"] by auto
  with h have ne: "zp \<noteq> file_path" by auto
  show "\<exists>zip_path. with_suffix file_path ''.zip'' = Inr zip_path
         \<and> suffix zip_path = ''.zip'' \<and> zip_path \<noteq> file_path
         \<and> fst (save_zip file_path suf w) = Inr ()
         \<and> files (snd (save_zip file_path suf w)) zip_path = Some c
         \<and> files (snd (save_zip file_path suf w)) file_path = None
         \<and> (\<forall>p. p \<noteq> zip_path \<and> p \<noteq> file_path
                \<longrightarrow> files (snd (save_zip file_path suf w)) p = files w p)
         \<and> replaces (log (snd (save_zip file_path suf w)))
             = replaces (log w) @ [(file_path, zip_path)]"
    using h zp ne
    by (intro exI[of _ zp]) (simp add: save_zip_def os_replace_def emit_def replaces_append)
next
  assume "suf = ''.zip''"
  then show "save_zip file_path suf w = (Inr (), w)" by (simp add: save_zip_def)
next
  assume "suffix file_path = ''.zip''"
  then show "save_zip file_path (py_lower (suffix file_path)) w = (Inr (), w)"
    by (simp add: save_zip_def py_lower_zip)
next
  assume "fst (is_zip file_path ct w) = Inr True"
  then show "tagging E it file_path ct suf w = save_zip file_path suf (snd (is_zip file_path ct w))"
    by (cases "is_zip file_path ct w") (simp add: tagging_def)
qed

theorem save_zip_renames_and_has_priority_witness:
  "files world_zip zip_as_mp4 = Some (Bytes (zip_signature @ ''rest''))
   \<and> name zip_as_mp4 \<noteq> [] \<and> ''.mp4'' \<noteq> ''.zip'' \<and> suffix zip_as_mp4 \<noteq> ''.zip''
   \<and> files (snd (save_zip zip_as_mp4 ''.mp4'' world_zip)) (Path ''out'' ''3_2025-11-12T210503Z.zip'')
       = Some (Bytes (zip_signature @ ''rest''))
   \<and> files (snd (save_zip zip_as_mp4 ''.mp4'' world_zip)) zip_as_mp4 = None
   \<and> save_zip (Path ''out'' ''3_2025-11-12T210503Z.zip'') ''.zip'' world_zip = (Inr (), world_zip)
   \<and> kind_norm item_video = ''video'' \<and> which_ffmpeg env_ffmpeg_no_output
   \<and> fst (is_zip zip_as_mp4 (Some ''video/mp4'') world_zip) = Inr True
   \<and> tagging env_ffmpeg_no_output item_video zip_as_mp4 (Some ''video/mp4'') ''.mp4'' world_zip
       = save_zip zip_as_mp4 ''.mp4'' (snd (is_zip zip_as_mp4 (Some ''video/mp4'') world_zip))"
proof -
  have h: "files world_zip zip_as_mp4 = Some (Bytes (zip_signature @ ''rest''))
           \<and> name zip_as_mp4 \<noteq> [] \<and> ''.mp4'' \<noteq> ''.zip'' \<and> suffix zip_as_mp4 \<noteq> ''.zip''"
    by code_simp
  have z: "with_suffix zip_as_mp4 ''.zip'' = Inr (Path ''out'' ''3_2025-11-12T210503Z.zip'')"
    by code_simp
  have k: "kind_norm item_video = ''video'' \<and> which_ffmpeg env_ffmpeg_no_output"
    by code_simp
  have i: "fst (is_zip zip_as_mp4 (Some ''video/mp4'') world_zip) = Inr True"
    by code_simp
  from save_zip_renames_and_has_priority
         [of world_zip zip_as_mp4 "Bytes (zip_signature @ ''rest'')" "''.mp4''",
          THEN conjunct1, THEN mp, OF h]
  obtain zp where zp: "with_suffix zip_as_mp4 ''.zip'' = Inr zp"
      "files (snd (save_zip zip_as_mp4 ''.mp4'' world_zip)) zp
         = Some (Bytes (zip_signature @ ''rest''))"
      "files (snd (save_zip zip_as_mp4 ''.mp4'' world_zip)) zip_as_mp4 = None"
    by blast
  from zp(1) z have e: "zp = Path ''out'' ''3_2025-11-12T210503Z.zip''" by simp
  note N = save_zip_renames_and_has_priority
         [of world_zip "Path ''out'' ''3_2025-11-12T210503Z.zip''" _ "''.zip''",
          THEN conjunct2, THEN conjunct1, THEN mp, OF refl]
  note P = save_zip_renames_and_has_priority
         [of world_zip zip_as_mp4 _ "''.mp4''" "Some ''video/mp4''" env_ffmpeg_no_output item_video,
          THEN conjunct2, THEN conjunct2, THEN conjunct2, THEN mp, OF i]
  show ?thesis
    by (intro conjI h[THEN conjunct1] h[THEN conjunct2, THEN conjunct1]
          h[THEN conjunct2, THEN conjunct2, THEN conjunct1]
          h[THEN conjunct2, THEN conjunct2, THEN conjunct2]
          zp(2)[unfolded e] zp(3) N k[THEN conjunct1] k[THEN conjunct2] i P)
qed

section \<open>What the handler of a tagging failure guarantees\<close>

lemma is_zip_files: "files (snd (is_zip p ct w)) = files w"
  by (auto simp: is_zip_def open_read4_def emit_def Let_def split: option.splits content.splits)

lemma is_zip_Inr: "\<exists>z. fst (is_zip p ct w) = Inr z"
  by (auto simp: is_zip_def open_read4_def Let_def split: option.splits content.splits)

lemma os_replace_Inl_files: "fst (os_replace a b w) = Inl e \<Longrightarrow> files (snd (os_replace a b w)) = files w"
  by (auto simp: os_replace_def emit_def split: option.splits)

lemma save_zip_Inl_files:
  "fst (save_zip p suf w) = Inl e \<Longrightarrow> files (snd (save_zip p suf w)) = files w"
  by (auto simp: save_zip_def os_replace_Inl_files split: sum.splits if_splits)

lemma tag_jpeg_Inl_files:
  "fst (tag_jpeg_tiff_exif E p d la lo loc w) = Inl e \<Longrightarrow>
     files (snd (tag_jpeg_tiff_exif E p d la lo loc w)) = files w"
  by (auto simp: tag_jpeg_tiff_exif_def Let_def emit_def split: sum.splits)

lemma write_sidecar_Inl_files:
  "fst (write_sidecar p d w) = Inl e \<Longrightarrow> files (snd (write_sidecar p d w)) = files w"
  by (auto simp: write_sidecar_def split: sum.splits)

lemma with_suffix_longer:
  assumes "with_suffix p suf = Inr q" and "length (suffix p) < length suf"
  shows "q \<noteq> p"
proof
  assume qp: "q = p"
  define st where
    "st = (if suffix p = [] then name p else take (length (name p) - length (suffix p)) (name p))"
  from assms(1) have "q = Path (parent p) (st @ suf)"
    by (auto simp: with_suffix_def Let_def st_def split: if_splits)
  then have "name q = st @ suf" by simp
  with qp have "length (name p) = length st + length suf" by simp
  moreover have "length (suffix p) \<le> length (name p)"
    by (auto simp: suffix_def name_suffix_def split: option.splits)
  ultimately show False using assms(2) by (auto simp: st_def split: if_splits)
qed

lemma tag_png_Inl_file:
  assumes "fst (tag_png_text E p d loc w) = Inl e" and "length (suffix p) = 4"
  shows "files (snd (tag_png_text E p d loc w)) p = files w p"
proof -
  have ne: "tmp \<noteq> p" if "with_suffix p ''.tagged.png'' = Inr tmp" for tmp
    using with_suffix_longer[OF that] assms(2) by simp
  show ?thesis
    using assms(1) ne
    by (auto simp: tag_png_text_def Let_def emit_def os_replace_def
          split: option.splits sum.splits prod.splits)
qed

lemma length_py_lower: "length (py_lower s) = length s"
  by (simp add: py_lower_def)

text \<open>
  When the tagging code raises for an artifact whose name is not empty and has no
  slash, the handler writes the sidecar beside it (the name of the artifact followed by
  \<open>.json\<close>) with the keys kind, date, location, lat, lon, content\_type and tag\_error,
  the last holding the message of the exception, changes no other file, and the
  iteration ends without an exception as long as the console has a line to read.
\<close>

lemma tagging_failure_sidecar_and_continue:
  assumes "name file_path \<noteq> []" and "CHR ''/'' \<notin> set (name file_path)"
    and "fst (tagging E it file_path ct (py_lower (suffix file_path)) w1) = Inl e"
  shows "files (snd (tag_item E i it file_path ct w1))
             (Path (parent file_path) (name file_path @ ''.json''))
           = Some (JsonText
               [(''kind'', JStr (kind it)), (''date'', JStr (date_iso it)),
                (''location'', JStr (location_str it)), (''lat'', jnum (lat it)),
                (''lon'', jnum (lon it)), (''content_type'', jstr ct),
                (''tag_error'', JStr (exn_str e))] [])
     \<and> (\<forall>p. p \<noteq> Path (parent file_path) (name file_path @ ''.json'')
            \<longrightarrow> files (snd (tag_item E i it file_path ct w1)) p
                = files (snd (tagging E it file_path ct (py_lower (suffix file_path)) w1)) p)
     \<and> (stdin_line E i \<noteq> None \<longrightarrow> fst (tag_item E i it file_path ct w1) = None)"
proof -
  obtain w2 where t: "tagging E it file_path ct (py_lower (suffix file_path)) w1 = (Inl e, w2)"
    using assms(3) by (cases "tagging E it file_path ct (py_lower (suffix file_path)) w1") auto
  have "tag_item E i it file_path ct w1 =
          press_enter E i
            (write_text_json (Path (parent file_path) (name file_path @ ''.json''))
               (sidecar_dict it ct @ [(''tag_error'', JStr (exn_str e))]) w2)"
    by (simp add: tag_item_def Let_def t tagging_failed_def write_sidecar_ok[OF assms(1,2)])
  then show ?thesis
    by (auto simp: t press_enter_def write_text_json_def emit_def sidecar_dict_def
          split: option.splits)
qed

lemma tagging_failure_sidecar_and_continue_witness:
  "name (Path ''out'' ''1_2025-11-12T210503Z.jpg'') \<noteq> []
   \<and> CHR ''/'' \<notin> set (name (Path ''out'' ''1_2025-11-12T210503Z.jpg''))
   \<and> fst (tagging env0 (item_video\<lparr>kind := ''Image'', kind_norm := ''image''\<rparr>)
             (Path ''out'' ''1_2025-11-12T210503Z.jpg'') None
             (py_lower (suffix (Path ''out'' ''1_2025-11-12T210503Z.jpg'')))
             (world0\<lparr>files := [Path ''out'' ''1_2025-11-12T210503Z.jpg'' \<mapsto> Bytes ''abcd'']\<rparr>))
       = Inl (LibraryError ''InvalidImageDataError'')
   \<and> stdin_line env0 1 \<noteq> None
   \<and> fst (tag_item env0 1 (item_video\<lparr>kind := ''Image'', kind_norm := ''image''\<rparr>)
             (Path ''out'' ''1_2025-11-12T210503Z.jpg'') None
             (world0\<lparr>files := [Path ''out'' ''1_2025-11-12T210503Z.jpg'' \<mapsto> Bytes ''abcd'']\<rparr>))
       = None
   \<and> files (snd (tag_item env0 1 (item_video\<lparr>kind := ''Image'', kind_norm := ''image''\<rparr>)
             (Path ''out'' ''1_2025-11-12T210503Z.jpg'') None
             (world0\<lparr>files := [Path ''out'' ''1_2025-11-12T210503Z.jpg'' \<mapsto> Bytes ''abcd'']\<rparr>)))
        (Path ''out'' ''1_2025-11-12T210503Z.jpg.json'')
       = Some (JsonText
               [(''kind'', JStr ''Image''), (''date'', JStr ''2025-11-12T21:05:03Z''),
                (''location'', JStr ''Paris''), (''lat'', JNull), (''lon'', JNull),
                (''content_type'', JNull),
                (''tag_error'', JStr ''InvalidImageDataError'')] [])"
proof -
  define P where "P = Path ''out'' ''1_2025-11-12T210503Z.jpg''"
  define it where "it = item_video\<lparr>kind := ''Image'', kind_norm := ''image''\<rparr>"
  define w where "w = world0\<lparr>files := [P \<mapsto> Bytes ''abcd'']\<rparr>"
  have a: "name P \<noteq> []" and b: "CHR ''/'' \<notin> set (name P)" by (simp_all add: P_def)
  have c: "fst (tagging env0 it P None (py_lower (suffix P)) w)
             = Inl (LibraryError ''InvalidImageDataError'')"
    unfolding P_def it_def w_def by code_simp
  have d: "stdin_line env0 1 \<noteq> None" by (simp add: env0_def)
  note T = tagging_failure_sidecar_and_continue[OF a b c, of 1]
  have v: "[(''kind'', JStr (kind it)), (''date'', JStr (date_iso it)),
            (''location'', JStr (location_str it)), (''lat'', jnum (lat it)),
            (''lon'', jnum (lon it)), (''content_type'', jstr None),
            (''tag_error'', JStr (exn_str (LibraryError ''InvalidImageDataError'')))]
           = [(''kind'', JStr ''Image''), (''date'', JStr ''2025-11-12T21:05:03Z''),
              (''location'', JStr ''Paris''), (''lat'', JNull), (''lon'', JNull),
              (''content_type'', JNull), (''tag_error'', JStr ''InvalidImageDataError'')]"
    by (simp add: it_def item_video_def jnum_def jstr_def)
  have s: "Path (parent P) (name P @ ''.json'') = Path ''out'' ''1_2025-11-12T210503Z.jpg.json''"
    by (simp add: P_def)
  show ?thesis
    unfolding P_def[symmetric] it_def[symmetric] w_def[symmetric]
    by (intro conjI a b c d T[THEN conjunct2, THEN conjunct2, THEN mp, OF d]
          T[THEN conjunct1, unfolded v s])
qed

text \<open>
  When the tagging code raises and the item did not take the video branch (the artifact
  is a zip archive, or the kind is not \<open>video\<close>, or ffmpeg is not installed), the
  artifact still holds what the download stored.
\<close>

lemma tagging_failure_keeps_artifact_outside_video:
  assumes "files w1 file_path = Some c"
    and "fst (tagging E it file_path ct (py_lower (suffix file_path)) w1) = Inl e"
    and "fst (is_zip file_path ct w1) = Inr True \<or> \<not> (kind_norm it = ''video'' \<and> which_ffmpeg E)"
  shows "files (snd (tagging E it file_path ct (py_lower (suffix file_path)) w1)) file_path = Some c"
proof -
  obtain z wz where iz: "is_zip file_path ct w1 = (Inr z, wz)"
    using is_zip_Inr[of file_path ct w1] by (cases "is_zip file_path ct w1") auto
  have fz: "files wz = files w1" using is_zip_files[of file_path ct w1] by (simp add: iz)
  have l4: "py_lower (suffix file_path) = ''.png'' \<Longrightarrow> length (suffix file_path) = 4"
    using length_py_lower[of "suffix file_path"] by simp
  show ?thesis
    using assms fz l4
    by (auto simp: tagging_def iz save_zip_Inl_files tag_jpeg_Inl_files tag_png_Inl_file
          write_sidecar_Inl_files split: if_splits)
qed

lemma tagging_failure_keeps_artifact_outside_video_witness:
  "files (world0\<lparr>files := [Path ''out'' ''1_2025-11-12T210503Z.jpg'' \<mapsto> Bytes ''abcd'']\<rparr>)
     (Path ''out'' ''1_2025-11-12T210503Z.jpg'') = Some (Bytes ''abcd'')
   \<and> fst (tagging env0 (item_video\<lparr>kind := ''Image'', kind_norm := ''image''\<rparr>)
             (Path ''out'' ''1_2025-11-12T210503Z.jpg'') None
             (py_lower (suffix (Path ''out'' ''1_2025-11-12T210503Z.jpg'')))
             (world0\<lparr>files := [Path ''out'' ''1_2025-11-12T210503Z.jpg'' \<mapsto> Bytes ''abcd'']\<rparr>))
       = Inl (LibraryError ''InvalidImageDataError'')
   \<and> \<not> (kind_norm (item_video\<lparr>kind := ''Image'', kind_norm := ''image''\<rparr>) = ''video''
          \<and> which_ffmpeg env0)
   \<and> files (snd (tagging env0 (item_video\<lparr>kind := ''Image'', kind_norm := ''image''\<rparr>)
             (Path ''out'' ''1_2025-11-12T210503Z.jpg'') None
             (py_lower (suffix (Path ''out'' ''1_2025-11-12T210503Z.jpg'')))
             (world0\<lparr>files := [Path ''out'' ''1_2025-11-12T210503Z.jpg'' \<mapsto> Bytes ''abcd'']\<rparr>)))
        (Path ''out'' ''1_2025-11-12T210503Z.jpg'') = Some (Bytes ''abcd'')"
proof -
  define P where "P = Path ''out'' ''1_2025-11-12T210503Z.jpg''"
  define it where "it = item_video\<lparr>kind := ''Image'', kind_norm := ''image''\<rparr>"
  define w where "w = world0\<lparr>files := [P \<mapsto> Bytes ''abcd'']\<rparr>"
  have a: "files w P = Some (Bytes ''abcd'')" by (simp add: w_def)
  have c: "fst (tagging env0 it P None (py_lower (suffix P)) w)
             = Inl (LibraryError ''InvalidImageDataError'')"
    unfolding P_def it_def w_def by code_simp
  have n: "\<not> (kind_norm it = ''video'' \<and> which_ffmpeg env0)" by (simp add: it_def)
  note T = tagging_failure_keeps_artifact_outside_video[OF a c disjI2, OF n]
  show ?thesis
    unfolding P_def[symmetric] it_def[symmetric] w_def[symmetric]
    by (intro conjI a c n T)
qed

text \<open>
  In the video branch, when ffmpeg itself fails (\<open>subprocess.run\<close> raises) for an
  artifact that has an extension, the artifact is untouched: the process wrote, if
  anything, to the \<open>.tagged\<close> path only. What is left is the window between the
  \<open>unlink\<close> and the rename that follow a run of ffmpeg without an exception.
\<close>

lemma video_ffmpeg_failure_keeps_artifact:
  assumes "files w1 file_path = Some c" and "fst (is_zip file_path ct w1) = Inr False"
    and "kind_norm it = ''video''" and "which_ffmpeg E" and "suffix file_path \<noteq> []"
    and "with_suffix file_path (replace_first_dot (suffix file_path)) = Inr tagged"
    and "fst (ffmpeg_run E (ffmpeg_cmd E file_path tagged (date_iso it) (location_str it)
                              (lat it) (lon it)) (Some c)) = Some e"
  shows "fst (tagging E it file_path ct suf w1) = Inl e
     \<and> files (snd (tagging E it file_path ct suf w1)) file_path = Some c"
proof -
  obtain wz where iz: "is_zip file_path ct w1 = (Inr False, wz)"
    using assms(2) by (cases "is_zip file_path ct w1") auto
  have fz: "files wz = files w1" using is_zip_files[of file_path ct w1] by (simp add: iz)
  obtain t where t: "suffix file_path = CHR ''.'' # t"
    using suffix_shape[of file_path] assms(5) by (cases "suffix file_path") auto
  have "length (suffix file_path) < length (replace_first_dot (suffix file_path))"
    by (simp add: t)
  from with_suffix_longer[OF assms(6) this] have ne: "tagged \<noteq> file_path" .
  obtain out where f: "ffmpeg_run E (ffmpeg_cmd E file_path tagged (date_iso it) (location_str it)
                              (lat it) (lon it)) (Some c) = (Some e, out)"
    using assms(7)
    by (cases "ffmpeg_run E (ffmpeg_cmd E file_path tagged (date_iso it) (location_str it)
                              (lat it) (lon it)) (Some c)") auto
  show ?thesis
    using assms(1,3,4) ne
    by (auto simp: tagging_def iz assms(6) write_video_metadata_ffmpeg_def Let_def fz f emit_def
          split: option.splits)
qed

section \<open>A failure of the video tagging\<close>

text \<open>
  C1 does not hold in the video branch. There the artifact is unlinked (main.py line
  303) before the tagged file is renamed onto its path (line 304), so an exception of
  that rename comes when the artifact is already gone. Here ffmpeg is installed and
  exits with status 0 without leaving its output file: the download has stored the
  artifact, the rename raises, the handler writes the sidecar with its \<open>tag_error\<close> and
  the loop goes on, but no file is at the path of the artifact any more.
\<close>

theorem video_rename_failure_loses_artifact:
  "fst (fetch env_ffmpeg_no_output cfg0 1 row_video ''2025-11-12T21:05:03Z'' world0)
     = Inr (Path ''out'' ''1_2025-11-12T210503Z.mp4'', Some ''video/mp4'')
   \<and> files (snd (fetch env_ffmpeg_no_output cfg0 1 row_video ''2025-11-12T21:05:03Z'' world0))
        (Path ''out'' ''1_2025-11-12T210503Z.mp4'') = Some (Bytes ''abcd'')
   \<and> fst (process_row env_ffmpeg_no_output cfg0 1 row_video world0) = None
   \<and> files (snd (process_row env_ffmpeg_no_output cfg0 1 row_video world0))
        (Path ''out'' ''1_2025-11-12T210503Z.mp4'') = None
   \<and> files (snd (process_row env_ffmpeg_no_output cfg0 1 row_video world0))
        (Path ''out'' ''1_2025-11-12T210503Z.tagged.mp4'') = None
   \<and> files (snd (process_row env_ffmpeg_no_output cfg0 1 row_video world0))
        (Path ''out'' ''1_2025-11-12T210503Z.mp4.json'')
       = Some (JsonText
           [(''kind'', JStr ''Video''), (''date'', JStr ''2025-11-12T21:05:03Z''),
            (''location'', JStr ''Latitude, Longitude: 48.5, 2.25''),
            (''lat'', JNum 48.5), (''lon'', JNum 2.25),
            (''content_type'', JStr ''video/mp4''),
            (''tag_error'', JStr ''FileNotFoundError'')] [])
   \<and> log (snd (process_row env_ffmpeg_no_output cfg0 1 row_video world0))
       = [Mkdir ''out'', Get (Some ''https://h/a''),
          OpenWrite (Path ''out'' ''1_2025-11-12T210503Z.download''),
          WriteChunk (Path ''out'' ''1_2025-11-12T210503Z.download'') ''ab'',
          WriteChunk (Path ''out'' ''1_2025-11-12T210503Z.download'') ''cd'',
          Replace (Path ''out'' ''1_2025-11-12T210503Z.download'')
                  (Path ''out'' ''1_2025-11-12T210503Z.mp4''),
          OpenRead (Path ''out'' ''1_2025-11-12T210503Z.mp4''),
          Ffmpeg (Path ''out'' ''1_2025-11-12T210503Z.mp4'')
                 (Path ''out'' ''1_2025-11-12T210503Z.tagged.mp4''),
          Unlink (Path ''out'' ''1_2025-11-12T210503Z.mp4''),
          Replace (Path ''out'' ''1_2025-11-12T210503Z.tagged.mp4'')
                  (Path ''out'' ''1_2025-11-12T210503Z.mp4''),
          WriteText (Path ''out'' ''1_2025-11-12T210503Z.mp4.json''),
          Input]"
  by code_simp


end
